theory Spec2Isabelle
  imports Complex_Main "HOL-Library.AList"
begin

section \<open>PlaceField: the grid map of droidlet/memory/place\_field.py\<close>

text \<open>
  A shallow embedding of the class \<^verbatim>\<open>PlaceField\<close>. Every method takes the object's
  state and returns a pair: the value it returns (\<open>Inr\<close>) or the exception it raises
  (\<open>Inl\<close>), and the state the object is left in. The state is returned on the error
  branch too, since Python keeps every mutation made before a \<^verbatim>\<open>raise\<close>.
\<close>

subsection \<open>Exceptions and module constants\<close>

datatype error =
    AssertionError
  | TypeError
  | AttributeError
  | KeyError
  | IndexError
  | ValueError
  | Exception

definition MAX_MAP_SIZE :: int where
  "MAX_MAP_SIZE = 4097"

definition MAP_INIT_SIZE :: int where
  "MAP_INIT_SIZE = 1025"

definition BIG_I :: int where
  "BIG_I = MAX_MAP_SIZE"

definition BIG_J :: int where
  "BIG_J = MAX_MAP_SIZE"

subsection \<open>Python's \<^verbatim>\<open>str\<close> and \<^verbatim>\<open>int\<close> on integers\<close>

text \<open>
  \<^verbatim>\<open>str(n)\<close> of a Python int is its decimal numeral: a minus sign for a negative
  number, no leading zeros. \<^verbatim>\<open>int(s)\<close> is modelled on the strings of that form (an
  optional minus sign, then one or more ASCII digits); every other string is mapped to
  \<^verbatim>\<open>ValueError\<close>. (Python's \<^verbatim>\<open>int\<close> accepts a few more spellings: surrounding
  blanks, a plus sign, underscores between digits. No key built by \<^verbatim>\<open>ijh2idx\<close> has
  them.)
\<close>

definition digit_char :: "nat \<Rightarrow> char" where
  "digit_char d = ''0123456789'' ! d"

fun str_nat :: "nat \<Rightarrow> string" where
  "str_nat n = (if n < 10 then [digit_char n] else str_nat (n div 10) @ [digit_char (n mod 10)])"

declare str_nat.simps [simp del]

definition py_str :: "int \<Rightarrow> string" where
  "py_str n = (if n < 0 then CHR ''-'' # str_nat (nat (- n)) else str_nat (nat n))"

definition is_digit :: "char \<Rightarrow> bool" where
  "is_digit c = (48 \<le> (of_char c :: nat) \<and> (of_char c :: nat) \<le> 57)"

definition digits_val :: "string \<Rightarrow> nat" where
  "digits_val cs = foldl (\<lambda>acc c. 10 * acc + (of_char c - 48)) 0 cs"

definition py_int :: "string \<Rightarrow> error + int" where
  "py_int cs =
     (case cs of
        [] \<Rightarrow> Inl ValueError
      | c # ds \<Rightarrow>
          if c = CHR ''-'' then
            (if ds \<noteq> [] \<and> list_all is_digit ds then Inr (- int (digits_val ds)) else Inl ValueError)
          else
            (if list_all is_digit cs then Inr (int (digits_val cs)) else Inl ValueError))"

subsection \<open>Cell keys\<close>

text \<open>
  \<^verbatim>\<open>ijh2idx\<close> and \<^verbatim>\<open>idx2ijh\<close>. Python's \<^verbatim>\<open>%\<close> and \<^verbatim>\<open>//\<close> on ints round towards
  minus infinity, as \<open>mod\<close> and \<open>div\<close> on \<open>int\<close> do.
\<close>

definition ijh2idx :: "int \<Rightarrow> int \<Rightarrow> int \<Rightarrow> string" where
  "ijh2idx i j h = py_str (h * BIG_I * BIG_J + i * BIG_J + j)"

definition idx2ijh :: "string \<Rightarrow> error + (int \<times> int \<times> int)" where
  "idx2ijh idx =
     (case py_int idx of
        Inl e \<Rightarrow> Inl e
      | Inr idx0 \<Rightarrow>
          (let j = idx0 mod BIG_J;
               idx1 = (idx0 - j) div BIG_J;
               i = idx1 mod BIG_I;
               h = (idx1 - i) div BIG_I
           in Inr (i, j, h)))"

subsection \<open>Python lists and numpy arrays\<close>

text \<open>
  Indexing a Python list or a numpy axis of length \<open>n\<close>: an index in \<open>[0, n)\<close> is
  taken as it is, an index in \<open>[-n, 0)\<close> counts from the end, anything else raises
  \<^verbatim>\<open>IndexError\<close>.
\<close>

definition py_index :: "int \<Rightarrow> int \<Rightarrow> error + int" where
  "py_index n i =
     (if 0 \<le> i \<and> i < n then Inr i
      else if - n \<le> i \<and> i < 0 then Inr (i + n)
      else Inl IndexError)"

definition list_getitem :: "'a list \<Rightarrow> int \<Rightarrow> error + 'a" where
  "list_getitem xs i =
     (case py_index (int (length xs)) i of
        Inl e \<Rightarrow> Inl e
      | Inr k \<Rightarrow> Inr (xs ! nat k))"

text \<open>
  The arrays of the map are square two-dimensional \<^verbatim>\<open>float64\<close> arrays that only ever
  hold integers (0 and 1, registry indices, time stamps, -1): the model keeps the side
  length and the integer at each index pair. \<open>full n v\<close> is \<^verbatim>\<open>v * np.ones((n, n))\<close>.
\<close>

record ndarray =
  shape0 :: int
  item :: "int \<Rightarrow> int \<Rightarrow> int"

definition full :: "int \<Rightarrow> int \<Rightarrow> ndarray" where
  "full n v = \<lparr>shape0 = n, item = (\<lambda>i j. v)\<rparr>"

definition getitem :: "ndarray \<Rightarrow> int \<Rightarrow> int \<Rightarrow> error + int" where
  "getitem a i j =
     (case py_index (shape0 a) i of
        Inl e \<Rightarrow> Inl e
      | Inr i' \<Rightarrow>
          (case py_index (shape0 a) j of
             Inl e \<Rightarrow> Inl e
           | Inr j' \<Rightarrow> Inr (item a i' j')))"

definition setitem :: "ndarray \<Rightarrow> int \<Rightarrow> int \<Rightarrow> int \<Rightarrow> error + ndarray" where
  "setitem a i j v =
     (case py_index (shape0 a) i of
        Inl e \<Rightarrow> Inl e
      | Inr i' \<Rightarrow>
          (case py_index (shape0 a) j of
             Inl e \<Rightarrow> Inl e
           | Inr j' \<Rightarrow> Inr (a\<lparr>item := (item a)(i' := (item a i')(j' := v))\<rparr>)))"

text \<open>
  The two statements of the loop of \<^verbatim>\<open>extend_map\<close>:
  \<^verbatim>\<open>new_map = v * np.ones((new_w, new_w))\<close> and
  \<^verbatim>\<open>new_map[extension:-extension, extension:-extension] = old\<close>.
  On an axis of length \<open>new_w\<close> the slice \<^verbatim>\<open>extension:-extension\<close> starts at
  \<open>extension\<close> and stops at \<open>new_w - extension\<close>; for \<open>extension = 0\<close> the stop
  \<^verbatim>\<open>-0\<close> is \<open>0\<close> and the slice is empty. The assignment needs the side of \<open>old\<close>
  to be the slice's length, or to be 1 (broadcast); otherwise numpy raises
  \<^verbatim>\<open>ValueError\<close>.
\<close>

definition pad :: "int \<Rightarrow> int \<Rightarrow> int \<Rightarrow> ndarray \<Rightarrow> error + ndarray" where
  "pad new_w extension v old =
     (let lo = min extension new_w;
          hi = (if extension = 0 then 0 else max 0 (new_w - extension));
          len = max 0 (hi - lo);
          w = shape0 old
      in if w = len then
           Inr \<lparr>shape0 = new_w,
                item = (\<lambda>i j. if lo \<le> i \<and> i < hi \<and> lo \<le> j \<and> j < hi
                               then item old (i - lo) (j - lo) else v)\<rparr>
         else if w = 1 then
           Inr \<lparr>shape0 = new_w,
                item = (\<lambda>i j. if lo \<le> i \<and> i < hi \<and> lo \<le> j \<and> j < hi
                               then item old 0 0 else v)\<rparr>
         else Inl ValueError)"

subsection \<open>The state of a PlaceField\<close>

text \<open>
  One entry of \<^verbatim>\<open>self.maps\<close>: the dict with the arrays \<^verbatim>\<open>"updated"\<close>, \<^verbatim>\<open>"map"\<close>
  and \<^verbatim>\<open>"memids"\<close>.
\<close>

record slice =
  sl_updated :: ndarray
  sl_map :: ndarray
  sl_memids :: ndarray

type_synonym xyz = "rat \<times> rat \<times> rat"

text \<open>
  The attributes of the object. Coordinates are \<open>rat\<close>: the arithmetic on them is exact,
  where Python's floats round. \<^verbatim>\<open>self.maps\<close> and \<^verbatim>\<open>self.examined\<close> are dicts that the
  code iterates or measures, so they are association lists in insertion order; the keys
  of \<^verbatim>\<open>self.maps\<close> are heights, or \<^verbatim>\<open>None\<close> (the default of \<^verbatim>\<open>extend_map\<close>'s
  \<^verbatim>\<open>h\<close>). An entry of \<^verbatim>\<open>self.memid2locs\<close> is a dict from cell keys to \<^verbatim>\<open>True\<close>:
  the list of its keys in insertion order. \<^verbatim>\<open>self.maps\<close>, \<^verbatim>\<open>self.last\<close> are
  \<open>maps_d\<close>, \<open>last_examined\<close> here.
\<close>

record place_field =
  index2memid :: "string list"
  memid2index :: "string \<rightharpoonup> int"
  examined :: "(xyz \<times> int) list"
  examined_id :: "int set"
  last_examined :: "xyz option"
  maps_d :: "(int option \<times> slice) list"
  map_size :: int
  pixels_per_unit :: rat
  memid2locs :: "string \<rightharpoonup> string list"

text \<open>Sequencing two steps: an exception of the first ends the computation.\<close>

definition thn ::
  "('s \<Rightarrow> (error + 'a) \<times> 's) \<Rightarrow> ('a \<Rightarrow> 's \<Rightarrow> (error + 'b) \<times> 's) \<Rightarrow> 's \<Rightarrow> (error + 'b) \<times> 's" where
  "thn m f s = (case m s of (Inl e, s') \<Rightarrow> (Inl e, s') | (Inr a, s') \<Rightarrow> f a s')"

datatype layer = Updated | Map | Memids

definition layer_get :: "layer \<Rightarrow> slice \<Rightarrow> ndarray" where
  "layer_get m sl = (case m of Updated \<Rightarrow> sl_updated sl | Map \<Rightarrow> sl_map sl | Memids \<Rightarrow> sl_memids sl)"

definition layer_set :: "layer \<Rightarrow> ndarray \<Rightarrow> slice \<Rightarrow> slice" where
  "layer_set m a sl =
     (case m of
        Updated \<Rightarrow> sl\<lparr>sl_updated := a\<rparr>
      | Map \<Rightarrow> sl\<lparr>sl_map := a\<rparr>
      | Memids \<Rightarrow> sl\<lparr>sl_memids := a\<rparr>)"

text \<open>The statement \<^verbatim>\<open>self.maps[h][m][i, j] = v\<close>.\<close>

definition set_cell :: "layer \<Rightarrow> int \<Rightarrow> int \<Rightarrow> int \<Rightarrow> int \<Rightarrow> place_field \<Rightarrow> (error + unit) \<times> place_field" where
  "set_cell m h i j v s =
     (case map_of (maps_d s) (Some h) of
        None \<Rightarrow> (Inl KeyError, s)
      | Some sl \<Rightarrow>
          (case setitem (layer_get m sl) i j v of
             Inl e \<Rightarrow> (Inl e, s)
           | Inr a \<Rightarrow> (Inr (), s\<lparr>maps_d := AList.update (Some h) (layer_set m a sl) (maps_d s)\<rparr>)))"

text \<open>The expression \<^verbatim>\<open>self.maps[h][m][i, j]\<close>.\<close>

definition get_cell :: "layer \<Rightarrow> int \<Rightarrow> int \<Rightarrow> int \<Rightarrow> place_field \<Rightarrow> error + int" where
  "get_cell m h i j s =
     (case map_of (maps_d s) (Some h) of
        None \<Rightarrow> Inl KeyError
      | Some sl \<Rightarrow> getitem (layer_get m sl) i j)"

subsection \<open>The registry of memids\<close>

definition maybe_add_memid :: "string \<Rightarrow> place_field \<Rightarrow> int \<times> place_field" where
  "maybe_add_memid memid s =
     (case memid2index s memid of
        Some idx \<Rightarrow> (idx, s)
      | None \<Rightarrow>
          (let idx = int (length (index2memid s))
           in (idx, s\<lparr>index2memid := index2memid s @ [memid],
                      memid2index := (memid2index s)(memid \<mapsto> idx)\<rparr>)))"

subsection \<open>Growing a slice\<close>

definition init_slice :: slice where
  "init_slice =
     \<lparr>sl_updated = full MAP_INIT_SIZE (- 1),
      sl_map = full MAP_INIT_SIZE 0,
      sl_memids = full MAP_INIT_SIZE 0\<rparr>"

text \<open>
  \<^verbatim>\<open>extend_map(self, h=None, extension=1)\<close>. \<^verbatim>\<open>not h\<close> holds for \<^verbatim>\<open>None\<close> and for 0.
  The loop runs over \<^verbatim>\<open>"updated"\<close>, \<^verbatim>\<open>"map"\<close>, \<^verbatim>\<open>"memids"\<close> in this order and
  replaces each array as soon as it is padded.
\<close>

definition extend_map :: "int option \<Rightarrow> int \<Rightarrow> place_field \<Rightarrow> (error + int) \<times> place_field" where
  "extend_map h0 extension s =
     (if \<not> 0 \<le> extension then (Inl AssertionError, s)
      else
        let h = (if (h0 = None \<or> h0 = Some 0) \<and> length (maps_d s) = 1
                 then fst (hd (maps_d s)) else h0);
            s1 = (case map_of (maps_d s) h of
                    Some sl \<Rightarrow> s
                  | None \<Rightarrow> s\<lparr>maps_d := AList.update h init_slice (maps_d s)\<rparr>)
        in case map_of (maps_d s1) h of
             None \<Rightarrow> (Inl KeyError, s1)
           | Some sl \<Rightarrow>
               (let w = shape0 (sl_map sl);
                    new_w = w + 2 * extension
                in if new_w > MAX_MAP_SIZE then (Inr (- 1), s1)
                   else
                     (case pad new_w extension (- 1) (sl_updated sl) of
                        Inl e \<Rightarrow> (Inl e, s1)
                      | Inr u \<Rightarrow>
                          (let sl1 = sl\<lparr>sl_updated := u\<rparr>;
                               s2 = s1\<lparr>maps_d := AList.update h sl1 (maps_d s1)\<rparr>
                           in case pad new_w extension 0 (sl_map sl1) of
                                Inl e \<Rightarrow> (Inl e, s2)
                              | Inr m \<Rightarrow>
                                  (let sl2 = sl1\<lparr>sl_map := m\<rparr>;
                                       s3 = s2\<lparr>maps_d := AList.update h sl2 (maps_d s2)\<rparr>
                                   in case pad new_w extension 0 (sl_memids sl2) of
                                        Inl e \<Rightarrow> (Inl e, s3)
                                      | Inr k \<Rightarrow>
                                          (Inr new_w,
                                           s3\<lparr>maps_d :=
                                                AList.update h (sl2\<lparr>sl_memids := k\<rparr>) (maps_d s3)\<rparr>))))))"

subsection \<open>Coordinates\<close>

text \<open>Python's \<^verbatim>\<open>round\<close> with one argument: to the nearest integer, a tie to the even one.\<close>

definition py_round :: "rat \<Rightarrow> int" where
  "py_round q =
     (let f = \<lfloor>q\<rfloor>; d = q - of_int f
      in if d < 1 / 2 then f
         else if 1 / 2 < d then f + 1
         else if even f then f else f + 1)"

definition y2slice :: "rat \<Rightarrow> int" where
  "y2slice y = 0"

definition real2map :: "rat \<Rightarrow> rat \<Rightarrow> int \<Rightarrow> place_field \<Rightarrow> error + (int \<times> int)" where
  "real2map x z h s =
     (case map_of (maps_d s) (Some h) of
        None \<Rightarrow> Inl KeyError
      | Some sl \<Rightarrow>
          (let n = shape0 (sl_map sl);
               i = x * pixels_per_unit s + of_int (n div 2);
               j = z * pixels_per_unit s + of_int (n div 2)
           in Inr (py_round i, py_round j)))"

subsection \<open>Deleting locations\<close>

text \<open>The expression \<^verbatim>\<open>self.index2memid[int(self.maps[h]["memids"][i, j])]\<close>.\<close>

definition current_memid :: "int \<Rightarrow> int \<Rightarrow> int \<Rightarrow> place_field \<Rightarrow> error + string" where
  "current_memid i j h s =
     (case get_cell Memids h i j s of
        Inl e \<Rightarrow> Inl e
      | Inr k \<Rightarrow> list_getitem (index2memid s) k)"

text \<open>
  The last three lines of \<^verbatim>\<open>maybe_delete_loc\<close>, on the dict \<open>d\<close> that is
  \<^verbatim>\<open>self.memid2locs\<close>. \<^verbatim>\<open>self.memid2locs.get(memid)\<close> is true for an entry with at
  least one key; then \<^verbatim>\<open>idx\<close> is popped from the entry, and an entry left without keys
  is popped from \<open>d\<close>.
\<close>

definition pop_key :: "string \<Rightarrow> string \<Rightarrow> (string \<rightharpoonup> string list) \<Rightarrow> (string \<rightharpoonup> string list)" where
  "pop_key memid idx d =
     (case d memid of
        None \<Rightarrow> d
      | Some [] \<Rightarrow> d
      | Some (k # ks) \<Rightarrow>
          (let locs = removeAll idx (k # ks)
           in if length locs = 0 then d(memid := None) else d(memid \<mapsto> locs)))"

text \<open>
  \<^verbatim>\<open>maybe_delete_loc(self, i, j, h, t, memid="NULL")\<close>. The entry of
  \<^verbatim>\<open>self.memid2locs\<close> it edits is that of the argument \<^verbatim>\<open>memid\<close>, not that of
  \<^verbatim>\<open>current_memid\<close>.
\<close>

definition maybe_delete_loc ::
  "int \<Rightarrow> int \<Rightarrow> int \<Rightarrow> int \<Rightarrow> string \<Rightarrow> place_field \<Rightarrow> (error + unit) \<times> place_field" where
  "maybe_delete_loc i j h t memid s =
     (case current_memid i j h s of
        Inl e \<Rightarrow> (Inl e, s)
      | Inr cur \<Rightarrow>
          if memid = ''NULL'' \<or> cur = memid then
            (case memid2index s ''NULL'' of
               None \<Rightarrow> (Inl KeyError, s)
             | Some null_idx \<Rightarrow>
                 thn (set_cell Memids h i j null_idx) (\<lambda>_.
                 thn (set_cell Map h i j 0) (\<lambda>_.
                 thn (set_cell Updated h i j t) (\<lambda>_ s'.
                   (Inr (), s'\<lparr>memid2locs := pop_key memid (ijh2idx i j h) (memid2locs s')\<rparr>)))) s)
          else (Inr (), s))"

text \<open>
  The body of the loop of \<^verbatim>\<open>delete_loc_by_memid\<close> up to the count: decode the key and
  clear the cell.
\<close>

definition clear_loc :: "string \<Rightarrow> int \<Rightarrow> place_field \<Rightarrow> (error + unit) \<times> place_field" where
  "clear_loc idx t s =
     (case idx2ijh idx of
        Inl e \<Rightarrow> (Inl e, s)
      | Inr (i, j, h) \<Rightarrow>
          thn (set_cell Memids h i j 0) (\<lambda>_.
          thn (set_cell Map h i j 0) (\<lambda>_.
          set_cell Updated h i j t)) s)"

fun delete_loop :: "int \<Rightarrow> bool \<Rightarrow> int \<Rightarrow> string list \<Rightarrow> place_field \<Rightarrow> (error + unit) \<times> place_field" where
  "delete_loop t is_move count [] s = (Inr (), s)"
| "delete_loop t is_move count (idx # idxs) s =
     (case clear_loc idx t s of
        (Inl e, s') \<Rightarrow> (Inl e, s')
      | (Inr _, s') \<Rightarrow>
          (let count' = count + 1
           in if is_move \<and> count' > 1 then (Inl Exception, s')
              else delete_loop t is_move count' idxs s'))"

text \<open>
  \<^verbatim>\<open>delete_loc_by_memid(self, memid, t, is_move=False)\<close>. \<^verbatim>\<open>assert memid\<close> fails
  for the empty string. The keys of \<^verbatim>\<open>self.memid2locs.get(memid, [])\<close> are visited in
  insertion order; the entry is popped only when the loop has ended without a raise.
\<close>

definition delete_loc_by_memid :: "string \<Rightarrow> int \<Rightarrow> bool \<Rightarrow> place_field \<Rightarrow> (error + unit) \<times> place_field" where
  "delete_loc_by_memid memid t is_move s =
     (if memid = [] then (Inl AssertionError, s)
      else if memid = ''NULL'' then (Inl AssertionError, s)
      else
        (case delete_loop t is_move 0 (case memid2locs s memid of None \<Rightarrow> [] | Some ks \<Rightarrow> ks) s of
           (Inl e, s') \<Rightarrow> (Inl e, s')
         | (Inr _, s') \<Rightarrow> (Inr (), s'\<lparr>memid2locs := (memid2locs s')(memid := None)\<rparr>)))"

subsection \<open>Applying changes\<close>

text \<open>
  A change is a dict; an absent key is \<open>None\<close> and \<^verbatim>\<open>c.get\<close> supplies the default.
\<close>

record change =
  c_pos :: "xyz option"
  c_memid :: "string option"
  c_is_obstacle :: "bool option"
  c_is_move :: "bool option"
  c_is_delete :: "bool option"

definition get_default :: "'a option \<Rightarrow> 'a \<Rightarrow> 'a" where
  "get_default v d = (case v of None \<Rightarrow> d | Some x \<Rightarrow> x)"

text \<open>\<^verbatim>\<open>s = max(i - self.map_size + 1, j - self.map_size + 1, -i, -j)\<close>\<close>

definition overshoot :: "int \<Rightarrow> int \<Rightarrow> place_field \<Rightarrow> int" where
  "overshoot i j s = max (max (max (i - map_size s + 1) (j - map_size s + 1)) (- i)) (- j)"

text \<open>
  The statements \<^verbatim>\<open>if not self.memid2locs.get(memid): self.memid2locs[memid] = {}\<close> and
  \<^verbatim>\<open>self.memid2locs[memid][idx] = True\<close>, on the entry \<open>d\<close> of \<^verbatim>\<open>memid\<close>: a key
  that the dict has keeps its place, a new key goes to the end.
\<close>

definition add_key :: "string \<Rightarrow> string list option \<Rightarrow> string list" where
  "add_key idx d =
     (let locs = (case d of None \<Rightarrow> [] | Some ks \<Rightarrow> ks)
      in if idx \<in> set locs then locs else locs @ [idx])"

text \<open>
  The last five statements of the loop body: the cell is written and the key is entered
  under \<^verbatim>\<open>memid\<close>. The right-hand side
  \<^verbatim>\<open>self.memid2index.get(memid, self.maybe_add_memid(memid))\<close> is evaluated first, and
  its second argument before the \<^verbatim>\<open>get\<close>.
\<close>

definition set_loc :: "int \<Rightarrow> int \<Rightarrow> int \<Rightarrow> int \<Rightarrow> string \<Rightarrow> bool \<Rightarrow> place_field \<Rightarrow> (error + unit) \<times> place_field" where
  "set_loc i j h t memid obstacle s =
     (let (added, s1) = maybe_add_memid memid s;
          v = get_default (memid2index s1 memid) added
      in thn (set_cell Memids h i j v) (\<lambda>_.
         thn (set_cell Map h i j (if obstacle then 1 else 0)) (\<lambda>_.
         thn (set_cell Updated h i j t) (\<lambda>_ s'.
           (Inr (), s'\<lparr>memid2locs :=
              (memid2locs s')(memid \<mapsto> add_key (ijh2idx i j h) (memid2locs s' memid))\<rparr>)))) s1)"

text \<open>
  One round of the loop of \<^verbatim>\<open>update_map\<close>, at time \<open>t = self.get_time()\<close>. The call
  \<^verbatim>\<open>self.extend_map(s)\<close> passes \<open>s\<close> in the position of \<^verbatim>\<open>h\<close>; \<^verbatim>\<open>extension\<close> keeps
  its default 1, and the value returned is dropped.
\<close>

definition apply_change :: "int \<Rightarrow> change \<Rightarrow> place_field \<Rightarrow> (error + unit) \<times> place_field" where
  "apply_change t c s =
     (let is_delete = get_default (c_is_delete c) False;
          is_move = get_default (c_is_move c) False;
          memid = get_default (c_memid c) ''NULL''
      in case c_pos c of
           None \<Rightarrow>
             if \<not> is_delete then (Inl AssertionError, s)
             else if memid = [] then (Inl Exception, s)
             else delete_loc_by_memid memid t False s
         | Some (x, y, z) \<Rightarrow>
             (let h = y2slice y
              in case real2map x z h s of
                   Inl e \<Rightarrow> (Inl e, s)
                 | Inr (i, j) \<Rightarrow>
                     (case (if overshoot i j s > 0 then extend_map (Some (overshoot i j s)) 1 s
                            else (Inr 0, s)) of
                        (Inl e, s1) \<Rightarrow> (Inl e, s1)
                      | (Inr _, s1) \<Rightarrow>
                          (case real2map x z h s1 of
                             Inl e \<Rightarrow> (Inl e, s1)
                           | Inr (i, j) \<Rightarrow>
                               if overshoot i j s1 > 0 then (Inr (), s1)
                               else if is_delete then maybe_delete_loc i j h t memid s1
                               else
                                 thn (\<lambda>s2. if is_move
                                            then (if memid = ''NULL'' then (Inl AssertionError, s2)
                                                  else delete_loc_by_memid memid t True s2)
                                            else (Inr (), s2))
                                     (\<lambda>_. set_loc i j h t memid (get_default (c_is_obstacle c) True))
                                     s1))))"

fun update_map :: "int \<Rightarrow> change list \<Rightarrow> place_field \<Rightarrow> (error + unit) \<times> place_field" where
  "update_map t [] s = (Inr (), s)"
| "update_map t (c # cs) s =
     (case apply_change t c s of
        (Inl e, s') \<Rightarrow> (Inl e, s')
      | (Inr _, s') \<Rightarrow> update_map t cs s')"

subsection \<open>A fresh PlaceField\<close>

text \<open>
  \<^verbatim>\<open>__init__(self, memory, pixels_per_unit=1)\<close>, with \<^verbatim>\<open>memory.self_memid\<close> as an
  argument. \<^verbatim>\<open>map_size\<close> is assigned once, here, from the value \<^verbatim>\<open>extend_map(h=0)\<close>
  returns; before that it has no value (0 below), and \<^verbatim>\<open>extend_map\<close> does not read
  it.
\<close>

definition PlaceField_init :: "string \<Rightarrow> rat \<Rightarrow> error + place_field" where
  "PlaceField_init self_memid ppu =
     (let s0 = \<lparr>index2memid = [], memid2index = Map.empty, examined = [], examined_id = {},
                last_examined = None, maps_d = [], map_size = 0, pixels_per_unit = ppu,
                memid2locs = Map.empty\<rparr>;
          s1 = snd (maybe_add_memid ''NULL'' s0);
          s2 = snd (maybe_add_memid self_memid s1)
      in case extend_map (Some 0) 1 s2 of
           (Inl e, s3) \<Rightarrow> Inl e
         | (Inr n, s3) \<Rightarrow> Inr (s3\<lparr>map_size := n\<rparr>))"

text \<open>The object \<^verbatim>\<open>PlaceField(memory)\<close> for a memory whose \<^verbatim>\<open>self_memid\<close> is \<^verbatim>\<open>"self"\<close>.\<close>

definition fresh :: place_field where
  "fresh = projr (PlaceField_init ''self'' 1)"

subsection \<open>The tracker of examined points\<close>

text \<open>
  \<^verbatim>\<open>no_y_l1(self, xyz, k)\<close> is a function of the module with three positional
  parameters. The norm of order 1 of a vector of two numbers is the sum of their
  absolute values.
\<close>

definition no_y_l1 :: "xyz \<Rightarrow> xyz \<Rightarrow> xyz \<Rightarrow> rat" where
  "no_y_l1 self xyz k = \<bar>fst xyz - fst k\<bar> + \<bar>snd (snd xyz) - snd (snd k)\<bar>"

text \<open>
  A call of \<^verbatim>\<open>no_y_l1\<close> with a list of positional arguments: Python binds three
  arguments to the three parameters, and raises \<^verbatim>\<open>TypeError\<close> for any other number.
\<close>

definition call_no_y_l1 :: "xyz list \<Rightarrow> error + rat" where
  "call_no_y_l1 args =
     (case args of
        [self, xyz, k] \<Rightarrow> Inr (no_y_l1 self xyz k)
      | _ \<Rightarrow> Inl TypeError)"

text \<open>
  The loop of \<^verbatim>\<open>get_closest\<close> over \<^verbatim>\<open>self.examined.items()\<close>, with the variables
  \<^verbatim>\<open>c\<close> and \<^verbatim>\<open>dist\<close> (\<open>dis\<close> here). Both calls are \<^verbatim>\<open>no_y_l1(k, xyz)\<close>: two arguments.
\<close>

fun closest_loop :: "xyz \<Rightarrow> (xyz \<times> int) list \<Rightarrow> xyz option \<Rightarrow> rat \<Rightarrow> error + xyz option" where
  "closest_loop xyz [] c dis = Inr c"
| "closest_loop xyz ((k, v) # kvs) c dis =
     (case call_no_y_l1 [k, xyz] of
        Inl e \<Rightarrow> Inl e
      | Inr d \<Rightarrow>
          if d < dis then
            (case call_no_y_l1 [k, xyz] of
               Inl e \<Rightarrow> Inl e
             | Inr d' \<Rightarrow> closest_loop xyz kvs (Some k) d')
          else closest_loop xyz kvs c dis)"

definition get_closest :: "xyz \<Rightarrow> place_field \<Rightarrow> (error + xyz) \<times> place_field" where
  "get_closest xyz s =
     (case closest_loop xyz (examined s) None (3 / 2) of
        Inl e \<Rightarrow> (Inl e, s)
      | Inr None \<Rightarrow> (Inr xyz, s\<lparr>examined := AList.update xyz 0 (examined s)\<rparr>)
      | Inr (Some c) \<Rightarrow> (Inr c, s))"

text \<open>The argument of \<^verbatim>\<open>update\<close> and \<^verbatim>\<open>can_examine\<close>: a dict with these three keys.\<close>

record target =
  t_xyz :: xyz
  t_eid :: int
  t_label :: string

definition update :: "target \<Rightarrow> place_field \<Rightarrow> (error + unit) \<times> place_field" where
  "update tg s =
     (case get_closest (t_xyz tg) s of
        (Inl e, s1) \<Rightarrow> (Inl e, s1)
      | (Inr k, s1) \<Rightarrow>
          (let s2 = s1\<lparr>last_examined := Some k\<rparr>;
               s3 = s2\<lparr>examined_id := insert (t_eid tg) (examined_id s2)\<rparr>
           in case map_of (examined s3) k of
                None \<Rightarrow> (Inl KeyError, s3)
              | Some n \<Rightarrow> (Inr (), s3\<lparr>examined := AList.update k (n + 1) (examined s3)\<rparr>)))"

definition clear_examined :: "place_field \<Rightarrow> (error + unit) \<times> place_field" where
  "clear_examined s = (Inr (), s\<lparr>examined := [], examined_id := {}, last_examined := None\<rparr>)"

text \<open>
  \<^verbatim>\<open>can_examine\<close>. In the condition
  \<^verbatim>\<open>self.last is not None and self.l1(cls.last, k) < 1\<close> the right operand is evaluated
  only when \<^verbatim>\<open>self.last\<close> is set, and its first step is the attribute \<^verbatim>\<open>self.l1\<close>,
  which neither the class nor the object has: \<^verbatim>\<open>AttributeError\<close>. When
  \<^verbatim>\<open>self.last\<close> is \<^verbatim>\<open>None\<close>, \<^verbatim>\<open>val\<close> is assigned \<^verbatim>\<open>self.examined[k] < 2\<close> and
  returned; the two calls of \<^verbatim>\<open>print\<close> read keys that the argument has.
\<close>

definition can_examine :: "target \<Rightarrow> place_field \<Rightarrow> (error + bool) \<times> place_field" where
  "can_examine x s =
     (case get_closest (t_xyz x) s of
        (Inl e, s1) \<Rightarrow> (Inl e, s1)
      | (Inr k, s1) \<Rightarrow>
          (case last_examined s1 of
             Some l \<Rightarrow> (Inl AttributeError, s1)
           | None \<Rightarrow>
               (case map_of (examined s1) k of
                  None \<Rightarrow> (Inl KeyError, s1)
                | Some n \<Rightarrow> (Inr (n < 2), s1))))"

subsection \<open>Calls from outside\<close>

text \<open>
  \<^verbatim>\<open>pop_memid_loc\<close> starts with \<^verbatim>\<open>self.hij2idx(h, i, j)\<close>; the class has
  \<^verbatim>\<open>ijh2idx\<close> and no \<^verbatim>\<open>hij2idx\<close>.
\<close>

definition pop_memid_loc :: "string \<Rightarrow> int \<Rightarrow> int \<Rightarrow> int \<Rightarrow> place_field \<Rightarrow> (error + unit) \<times> place_field" where
  "pop_memid_loc memid i j h s = (Inl AttributeError, s)"

text \<open>
  A caller holds the object and calls its methods one after the other; a call that
  raises leaves the object as it is at the raise, and the next call starts from there.
\<close>

datatype call =
    Update_map int "change list"
  | Extend_map "int option" int
  | Maybe_add_memid string
  | Maybe_delete_loc int int int int string
  | Delete_loc_by_memid string int bool
  | Pop_memid_loc string int int int
  | Get_closest xyz
  | Update target
  | Can_examine target
  | Clear_examined

definition outcome :: "(error + 'a) \<times> place_field \<Rightarrow> error option \<times> place_field" where
  "outcome r = (case r of (Inl e, s) \<Rightarrow> (Some e, s) | (Inr v, s) \<Rightarrow> (None, s))"

fun do_call :: "call \<Rightarrow> place_field \<Rightarrow> error option \<times> place_field" where
  "do_call (Update_map t changes) s = outcome (update_map t changes s)"
| "do_call (Extend_map h extension) s = outcome (extend_map h extension s)"
| "do_call (Maybe_add_memid memid) s = (None, snd (maybe_add_memid memid s))"
| "do_call (Maybe_delete_loc i j h t memid) s = outcome (maybe_delete_loc i j h t memid s)"
| "do_call (Delete_loc_by_memid memid t is_move) s = outcome (delete_loc_by_memid memid t is_move s)"
| "do_call (Pop_memid_loc memid i j h) s = outcome (pop_memid_loc memid i j h s)"
| "do_call (Get_closest xyz) s = outcome (get_closest xyz s)"
| "do_call (Update tg) s = outcome (update tg s)"
| "do_call (Can_examine x) s = outcome (can_examine x s)"
| "do_call Clear_examined s = outcome (clear_examined s)"

fun run :: "call list \<Rightarrow> place_field \<Rightarrow> place_field" where
  "run [] s = s"
| "run (c # cs) s = run cs (snd (do_call c s))"

subsection \<open>Notions of the specification\<close>

text \<open>
  The cell \<open>(i, j)\<close> lies in slice \<open>h\<close>: the slice exists and both indices are inside
  each of its three arrays, counted from 0.
\<close>

definition in_grid :: "int \<Rightarrow> int \<Rightarrow> int \<Rightarrow> place_field \<Rightarrow> bool" where
  "in_grid h i j s =
     (case map_of (maps_d s) (Some h) of
        None \<Rightarrow> False
      | Some sl \<Rightarrow>
          0 \<le> i \<and> 0 \<le> j
          \<and> i < shape0 (sl_updated sl) \<and> j < shape0 (sl_updated sl)
          \<and> i < shape0 (sl_map sl) \<and> j < shape0 (sl_map sl)
          \<and> i < shape0 (sl_memids sl) \<and> j < shape0 (sl_memids sl))"

text \<open>The state after \<^verbatim>\<open>self.maps[h][m][i, j] = v\<close>.\<close>

definition put_cell :: "layer \<Rightarrow> int \<Rightarrow> int \<Rightarrow> int \<Rightarrow> int \<Rightarrow> place_field \<Rightarrow> place_field" where
  "put_cell m h i j v s = snd (set_cell m h i j v s)"

text \<open>
  The registry is consistent: the dict \<^verbatim>\<open>memid2index\<close> maps a token to an index exactly
  when the list \<^verbatim>\<open>index2memid\<close> has the token at that index.
\<close>

definition reg_inv :: "place_field \<Rightarrow> bool" where
  "reg_inv s =
     ((\<forall>m k. memid2index s m = Some k \<longrightarrow>
          0 \<le> k \<and> nat k < length (index2memid s) \<and> index2memid s ! nat k = m)
      \<and> (\<forall>n. n < length (index2memid s) \<longrightarrow> memid2index s (index2memid s ! n) = Some (int n)))"

text \<open>The two halves of the registry, and the registry of \<open>s'\<close> keeping every entry of \<open>s\<close>.\<close>

definition registry :: "place_field \<Rightarrow> string list \<times> (string \<rightharpoonup> int)" where
  "registry s = (index2memid s, memid2index s)"

definition reg_extends :: "place_field \<Rightarrow> place_field \<Rightarrow> bool" where
  "reg_extends s s' =
     (length (index2memid s) \<le> length (index2memid s')
      \<and> take (length (index2memid s)) (index2memid s') = index2memid s
      \<and> (\<forall>m k. memid2index s m = Some k \<longrightarrow> memid2index s' m = Some k))"

text \<open>The registry of \<open>s\<close> is consistent and keeps every entry of \<open>s0\<close>.\<close>

definition reg_ok :: "place_field \<Rightarrow> place_field \<Rightarrow> bool" where
  "reg_ok s0 s = (reg_inv s \<and> reg_extends s0 s)"

text \<open>The state after the three assignments that clear the cell \<open>(i, j)\<close> of slice \<open>h\<close> at time \<open>t\<close>.\<close>

definition cleared :: "int \<Rightarrow> int \<Rightarrow> int \<Rightarrow> int \<Rightarrow> place_field \<Rightarrow> place_field" where
  "cleared h i j t s = put_cell Updated h i j t (put_cell Map h i j 0 (put_cell Memids h i j 0 s))"

text \<open>
  The specification's growth of one array: \<open>extension\<close> more cells on every side, each
  holding \<open>v\<close>, and the old content in the centre.
\<close>

definition padded :: "int \<Rightarrow> int \<Rightarrow> ndarray \<Rightarrow> ndarray" where
  "padded v extension a =
     \<lparr>shape0 = shape0 a + 2 * extension,
      item = (\<lambda>i j. if extension \<le> i \<and> i < extension + shape0 a
                        \<and> extension \<le> j \<and> j < extension + shape0 a
                      then item a (i - extension) (j - extension) else v)\<rparr>"

text \<open>
  The state after the cell \<open>(i, j)\<close> of slice \<open>h\<close> is written for \<open>memid\<close> at time \<open>t\<close>:
  the token is registered, the three arrays are assigned and the key is entered.
\<close>

definition set_loc_state :: "int \<Rightarrow> int \<Rightarrow> int \<Rightarrow> int \<Rightarrow> string \<Rightarrow> bool \<Rightarrow> place_field \<Rightarrow> place_field" where
  "set_loc_state i j h t memid obstacle s =
     (put_cell Updated h i j t
       (put_cell Map h i j (if obstacle then 1 else 0)
         (put_cell Memids h i j (fst (maybe_add_memid memid s)) (snd (maybe_add_memid memid s)))))
     \<lparr>memid2locs := (memid2locs s)(memid \<mapsto> add_key (ijh2idx i j h) (memid2locs s memid))\<rparr>"

subsection \<open>Inputs of the examples\<close>

text \<open>\<^verbatim>\<open>{"pos": (0, 0, 0), "memid": "rock1"}\<close>\<close>

definition insert_rock1 :: change where
  "insert_rock1 = \<lparr>c_pos = Some (0, 0, 0), c_memid = Some ''rock1'', c_is_obstacle = None,
     c_is_move = None, c_is_delete = None\<rparr>"

text \<open>\<^verbatim>\<open>{"pos": (1, 0, 0), "memid": "rock1"}\<close>\<close>

definition insert_rock1_east :: change where
  "insert_rock1_east = \<lparr>c_pos = Some (1, 0, 0), c_memid = Some ''rock1'', c_is_obstacle = None,
     c_is_move = None, c_is_delete = None\<rparr>"

text \<open>\<^verbatim>\<open>{"pos": (0, 0, 0), "is_delete": True}\<close>\<close>

definition delete_at_origin :: change where
  "delete_at_origin = \<lparr>c_pos = Some (0, 0, 0), c_memid = None, c_is_obstacle = None,
     c_is_move = None, c_is_delete = Some True\<rparr>"

text \<open>\<^verbatim>\<open>{"pos": (0, 0, 0), "memid": "rock1", "is_move": True}\<close>\<close>

definition move_rock1_origin :: change where
  "move_rock1_origin = \<lparr>c_pos = Some (0, 0, 0), c_memid = Some ''rock1'', c_is_obstacle = None,
     c_is_move = Some True, c_is_delete = None\<rparr>"

text \<open>\<^verbatim>\<open>{"pos": (600, 0, 0), "memid": "rock1"}\<close>\<close>

definition insert_far :: change where
  "insert_far = \<lparr>c_pos = Some (600, 0, 0), c_memid = Some ''rock1'', c_is_obstacle = None,
     c_is_move = None, c_is_delete = None\<rparr>"

text \<open>The fresh object with one more slice, of side 1027, under the key 87.\<close>

definition far_slice :: "place_field" where
  "far_slice = fresh\<lparr>maps_d :=
      [(Some 0, \<lparr>sl_updated = full 1027 (- 1), sl_map = full 1027 0, sl_memids = full 1027 0\<rparr>),
       (Some 87, \<lparr>sl_updated = full 1027 (- 1), sl_map = full 1027 0, sl_memids = full 1027 0\<rparr>)]\<rparr>"

text \<open>
  \<^verbatim>\<open>{"xyz": (0, 0, 0), "eid": 1, "label": "a"}\<close> and
  \<^verbatim>\<open>{"xyz": (0.25, 0, 0.25), "eid": 2, "label": "b"}\<close>
\<close>

definition visit_origin :: target where
  "visit_origin = \<lparr>t_xyz = (0, 0, 0), t_eid = 1, t_label = ''a''\<rparr>"

definition near_origin :: target where
  "near_origin = \<lparr>t_xyz = (1 / 4, 0, 1 / 4), t_eid = 2, t_label = ''b''\<rparr>"

text \<open>
  \<^verbatim>\<open>{"pos": (5, 0, 5), "memid": "rock1", "is_move": True}\<close>, and the same with
  \<^verbatim>\<open>"is_obstacle": False\<close>
\<close>

definition move_rock1_away :: change where
  "move_rock1_away = \<lparr>c_pos = Some (5, 0, 5), c_memid = Some ''rock1'', c_is_obstacle = None,
     c_is_move = Some True, c_is_delete = None\<rparr>"

definition move_rock1_away_free :: change where
  "move_rock1_away_free = \<lparr>c_pos = Some (5, 0, 5), c_memid = Some ''rock1'', c_is_obstacle = Some False,
     c_is_move = Some True, c_is_delete = None\<rparr>"

section \<open>Properties\<close>

subsection \<open>Decimal numerals\<close>

lemma of_char_digit_char: "d < 10 \<Longrightarrow> (of_char (digit_char d) :: nat) = 48 + d"
proof -
  assume "d < 10"
  then consider "d = 0" | "d = 1" | "d = 2" | "d = 3" | "d = 4"
    | "d = 5" | "d = 6" | "d = 7" | "d = 8" | "d = 9"
    by atomize_elim arith
  then show ?thesis by cases (simp_all add: digit_char_def)
qed

lemma is_digit_digit_char: "d < 10 \<Longrightarrow> is_digit (digit_char d)"
  by (simp add: is_digit_def of_char_digit_char)

lemma digit_char_not_minus: "d < 10 \<Longrightarrow> digit_char d \<noteq> CHR ''-''"
proof
  assume d: "d < 10" and eq: "digit_char d = CHR ''-''"
  have "(of_char (digit_char d) :: nat) = 48 + d" using d by (rule of_char_digit_char)
  moreover have "(of_char (CHR ''-'') :: nat) = 45" by simp
  ultimately show False using eq by simp
qed

lemma str_nat_digits: "list_all is_digit (str_nat n)"
proof (induction n rule: str_nat.induct)
  case (1 n)
  show ?case
  proof (cases "n < 10")
    case True
    then show ?thesis by (simp add: str_nat.simps [of n] is_digit_digit_char)
  next
    case False
    with 1 show ?thesis by (simp add: str_nat.simps [of n] is_digit_digit_char)
  qed
qed

lemma str_nat_not_Nil: "str_nat n \<noteq> []"
  by (subst str_nat.simps) simp

lemma digits_val_snoc: "digits_val (cs @ [c]) = 10 * digits_val cs + (of_char c - 48)"
  by (simp add: digits_val_def)

lemma digits_val_str_nat: "digits_val (str_nat n) = n"
proof (induction n rule: str_nat.induct)
  case (1 n)
  show ?case
  proof (cases "n < 10")
    case True
    then show ?thesis
      by (simp add: str_nat.simps [of n] digits_val_def of_char_digit_char)
  next
    case False
    with 1 have "digits_val (str_nat (n div 10)) = n div 10" by simp
    with False show ?thesis
      by (simp add: str_nat.simps [of n] digits_val_snoc of_char_digit_char)
  qed
qed

lemma hd_str_nat_not_minus: "hd (str_nat n) \<noteq> CHR ''-''"
proof (induction n rule: str_nat.induct)
  case (1 n)
  show ?case
  proof (cases "n < 10")
    case True
    then show ?thesis by (simp add: str_nat.simps [of n] digit_char_not_minus)
  next
    case False
    with 1 show ?thesis by (simp add: str_nat.simps [of n] str_nat_not_Nil)
  qed
qed

lemma py_int_str_nat: "py_int (str_nat n) = Inr (int n)"
proof -
  obtain c ds where cs: "str_nat n = c # ds"
    using str_nat_not_Nil [of n] by (cases "str_nat n") auto
  have "c \<noteq> CHR ''-''" using hd_str_nat_not_minus [of n] cs by simp
  moreover have "list_all is_digit (c # ds)" using str_nat_digits [of n] cs by simp
  moreover have "digits_val (c # ds) = n" using digits_val_str_nat [of n] cs by simp
  ultimately show ?thesis by (simp add: py_int_def cs)
qed

lemma py_int_py_str: "py_int (py_str n) = Inr n"
proof (cases "n < 0")
  case True
  then show ?thesis
    by (simp add: py_str_def py_int_def str_nat_not_Nil str_nat_digits digits_val_str_nat)
next
  case False
  then show ?thesis by (simp add: py_str_def py_int_str_nat)
qed

lemma py_str_inject: "py_str a = py_str b \<Longrightarrow> a = b"
proof -
  assume "py_str a = py_str b"
  then have "py_int (py_str a) = py_int (py_str b)" by simp
  then show "a = b" by (simp add: py_int_py_str)
qed

subsection \<open>Cell keys decode to the cell they encode\<close>

lemma idx2ijh_ijh2idx_gen:
  assumes "0 \<le> i" "i < BIG_I" "0 \<le> j" "j < BIG_J"
  shows "idx2ijh (ijh2idx i j h) = Inr (i, j, h)"
proof -
  let ?n = "h * BIG_I * BIG_J + i * BIG_J + j"
  have bj: "0 < BIG_J" and bi: "0 < BIG_I" by (simp_all add: BIG_I_def BIG_J_def MAX_MAP_SIZE_def)
  have "?n = j + (h * BIG_I + i) * BIG_J" by (simp add: algebra_simps)
  then have j: "?n mod BIG_J = j" using assms by simp
  have "?n - j = (h * BIG_I + i) * BIG_J" by (simp add: algebra_simps)
  then have q: "(?n - j) div BIG_J = h * BIG_I + i" using bj by simp
  have i: "(h * BIG_I + i) mod BIG_I = i" using assms by (simp add: add.commute)
  have h: "(h * BIG_I + i - i) div BIG_I = h" using bi by simp
  show ?thesis
    unfolding idx2ijh_def ijh2idx_def py_int_py_str
    by (simp only: Let_def j q i h sum.case)
qed

text \<open>
  C8. For all integers \<open>i\<close>, \<open>j\<close>, \<open>h\<close> with \<open>0 \<le> i, j, h < MAX_MAP_SIZE\<close>, decoding the
  encoded cell key gives the triple back: \<open>idx2ijh (ijh2idx i j h) = (i, j, h)\<close>, and
  the decoding raises nothing.
\<close>

theorem idx2ijh_ijh2idx:
  assumes "0 \<le> i" "i < MAX_MAP_SIZE" "0 \<le> j" "j < MAX_MAP_SIZE" "0 \<le> h" "h < MAX_MAP_SIZE"
  shows "idx2ijh (ijh2idx i j h) = Inr (i, j, h)"
  using assms by (simp add: idx2ijh_ijh2idx_gen BIG_I_def BIG_J_def)

theorem idx2ijh_ijh2idx_witness:
  "idx2ijh (ijh2idx 513 514 0) = Inr (513, 514, 0)"
  using idx2ijh_ijh2idx [of 513 514 0] by (simp add: MAX_MAP_SIZE_def)

subsection \<open>The fresh object, evaluated\<close>

lemma PlaceField_init_eq: "PlaceField_init ''self'' 1 = Inr
   \<lparr>index2memid = [''NULL'', ''self''], memid2index = [''NULL'' \<mapsto> 0, ''self'' \<mapsto> 1],
    examined = [], examined_id = {}, last_examined = None,
    maps_d = [(Some 0, \<lparr>sl_updated = full 1027 (- 1), sl_map = full 1027 0, sl_memids = full 1027 0\<rparr>)],
    map_size = 1027, pixels_per_unit = 1, memid2locs = Map.empty\<rparr>"
  by (simp add: PlaceField_init_def maybe_add_memid_def extend_map_def Let_def init_slice_def
      pad_def full_def MAP_INIT_SIZE_def MAX_MAP_SIZE_def cong del: if_weak_cong)

lemma fresh_eq: "fresh = 
   \<lparr>index2memid = [''NULL'', ''self''], memid2index = [''NULL'' \<mapsto> 0, ''self'' \<mapsto> 1],
    examined = [], examined_id = {}, last_examined = None,
    maps_d = [(Some 0, \<lparr>sl_updated = full 1027 (- 1), sl_map = full 1027 0, sl_memids = full 1027 0\<rparr>)],
    map_size = 1027, pixels_per_unit = 1, memid2locs = Map.empty\<rparr>"
  by (simp add: fresh_def PlaceField_init_eq)

subsection \<open>Writing cells\<close>

lemma set_cell_in_grid: "in_grid h i j s \<Longrightarrow> set_cell m h i j v s = (Inr (), put_cell m h i j v s)"
  by (cases m) (auto simp: in_grid_def put_cell_def set_cell_def setitem_def py_index_def layer_get_def
      split: option.splits)

lemma put_cell_fields [simp]:
  "index2memid (put_cell m h i j v s) = index2memid s"
  "memid2index (put_cell m h i j v s) = memid2index s"
  "examined (put_cell m h i j v s) = examined s"
  "examined_id (put_cell m h i j v s) = examined_id s"
  "last_examined (put_cell m h i j v s) = last_examined s"
  "map_size (put_cell m h i j v s) = map_size s"
  "pixels_per_unit (put_cell m h i j v s) = pixels_per_unit s"
  "memid2locs (put_cell m h i j v s) = memid2locs s"
  by (simp_all add: put_cell_def set_cell_def split: option.splits sum.splits)

lemma map_of_put_cell:
  "map_of (maps_d (put_cell m h i j v s)) k =
     (if k = Some h then
        (case map_of (maps_d s) (Some h) of None \<Rightarrow> None
         | Some sl \<Rightarrow> (case setitem (layer_get m sl) i j v of Inl e \<Rightarrow> Some sl | Inr a \<Rightarrow> Some (layer_set m a sl)))
      else map_of (maps_d s) k)"
  by (simp add: put_cell_def set_cell_def update_conv' split: option.splits sum.splits)

lemma shape0_setitem: "setitem a i j v = Inr b \<Longrightarrow> shape0 b = shape0 a"
  by (auto simp: setitem_def split: sum.splits)

lemma in_grid_put_cell [simp]: "in_grid h' i' j' (put_cell m h i j v s) = in_grid h' i' j' s"
  by (cases m) (auto simp: in_grid_def map_of_put_cell layer_set_def layer_get_def
      split: option.splits sum.splits dest: shape0_setitem)

lemma real2map_put_cell [simp]: "real2map x z h' (put_cell m h i j v s) = real2map x z h' s"
  by (cases m) (auto simp: real2map_def map_of_put_cell layer_set_def layer_get_def
      split: option.splits sum.splits dest: shape0_setitem)

lemma get_cell_put_cell:
  "in_grid h i j s \<Longrightarrow> 0 \<le> i' \<Longrightarrow> 0 \<le> j' \<Longrightarrow>
   get_cell m' h' i' j' (put_cell m h i j v s) =
     (if m' = m \<and> h' = h \<and> i' = i \<and> j' = j then Inr v else get_cell m' h' i' j' s)"
  by (cases m; cases m') (auto simp: in_grid_def get_cell_def map_of_put_cell setitem_def getitem_def
      py_index_def layer_set_def layer_get_def split: option.splits sum.splits)


lemma cleared_fields [simp]:
  "index2memid (cleared h i j t s) = index2memid s"
  "memid2index (cleared h i j t s) = memid2index s"
  "examined (cleared h i j t s) = examined s"
  "examined_id (cleared h i j t s) = examined_id s"
  "last_examined (cleared h i j t s) = last_examined s"
  "map_size (cleared h i j t s) = map_size s"
  "pixels_per_unit (cleared h i j t s) = pixels_per_unit s"
  "memid2locs (cleared h i j t s) = memid2locs s"
  by (simp_all add: cleared_def)

lemma in_grid_cleared [simp]: "in_grid h' i' j' (cleared h i j t s) = in_grid h' i' j' s"
  by (simp add: cleared_def)

lemma real2map_cleared [simp]: "real2map x z h' (cleared h i j t s) = real2map x z h' s"
  by (simp add: cleared_def)

lemma get_cell_cleared:
  "in_grid h i j s \<Longrightarrow> 0 \<le> i' \<Longrightarrow> 0 \<le> j' \<Longrightarrow>
   get_cell m h' i' j' (cleared h i j t s) =
     (if h' = h \<and> i' = i \<and> j' = j then Inr (case m of Updated \<Rightarrow> t | Map \<Rightarrow> 0 | Memids \<Rightarrow> 0)
      else get_cell m h' i' j' s)"
  by (cases m) (simp_all add: cleared_def get_cell_put_cell)

lemma in_grid_nonneg: "in_grid h i j s \<Longrightarrow> 0 \<le> i" "in_grid h i j s \<Longrightarrow> 0 \<le> j"
  by (auto simp: in_grid_def split: option.splits)

lemma clear_loc_in_grid:
  "in_grid h i j s \<Longrightarrow> i < BIG_I \<Longrightarrow> j < BIG_J \<Longrightarrow>
   clear_loc (ijh2idx i j h) t s = (Inr (), cleared h i j t s)"
  by (simp add: clear_loc_def idx2ijh_ijh2idx_gen in_grid_nonneg thn_def set_cell_in_grid cleared_def)


lemma delete_loc_by_memid_none:
  "memid \<noteq> [] \<Longrightarrow> memid \<noteq> ''NULL'' \<Longrightarrow> memid2locs s memid = None \<Longrightarrow>
   delete_loc_by_memid memid t mv s = (Inr (), s)"
  by (simp add: delete_loc_by_memid_def fun_upd_idem)

lemma delete_loc_by_memid_one:
  "memid \<noteq> [] \<Longrightarrow> memid \<noteq> ''NULL'' \<Longrightarrow> memid2locs s memid = Some [ijh2idx i j h] \<Longrightarrow>
   in_grid h i j s \<Longrightarrow> i < BIG_I \<Longrightarrow> j < BIG_J \<Longrightarrow>
   delete_loc_by_memid memid t mv s =
     (Inr (), (cleared h i j t s)\<lparr>memid2locs := (memid2locs s)(memid := None)\<rparr>)"
  by (simp add: delete_loc_by_memid_def clear_loc_in_grid)

lemma delete_loc_by_memid_two:
  "memid \<noteq> [] \<Longrightarrow> memid \<noteq> ''NULL'' \<Longrightarrow>
   memid2locs s memid = Some (ijh2idx i1 j1 h1 # ijh2idx i2 j2 h2 # rest) \<Longrightarrow>
   in_grid h1 i1 j1 s \<Longrightarrow> i1 < BIG_I \<Longrightarrow> j1 < BIG_J \<Longrightarrow>
   in_grid h2 i2 j2 s \<Longrightarrow> i2 < BIG_I \<Longrightarrow> j2 < BIG_J \<Longrightarrow>
   delete_loc_by_memid memid t True s = (Inl Exception, cleared h2 i2 j2 t (cleared h1 i1 j1 t s))"
  by (simp add: delete_loc_by_memid_def clear_loc_in_grid)

subsection \<open>Registering a token and writing a location\<close>

lemma maybe_add_memid_fields [simp]:
  "examined (snd (maybe_add_memid memid s)) = examined s"
  "examined_id (snd (maybe_add_memid memid s)) = examined_id s"
  "last_examined (snd (maybe_add_memid memid s)) = last_examined s"
  "maps_d (snd (maybe_add_memid memid s)) = maps_d s"
  "map_size (snd (maybe_add_memid memid s)) = map_size s"
  "pixels_per_unit (snd (maybe_add_memid memid s)) = pixels_per_unit s"
  "memid2locs (snd (maybe_add_memid memid s)) = memid2locs s"
  by (simp_all add: maybe_add_memid_def Let_def split: option.splits)

lemma maybe_add_memid_observers [simp]:
  "in_grid h i j (snd (maybe_add_memid memid s)) = in_grid h i j s"
  "get_cell m h i j (snd (maybe_add_memid memid s)) = get_cell m h i j s"
  "real2map x z h (snd (maybe_add_memid memid s)) = real2map x z h s"
  by (simp_all add: in_grid_def get_cell_def real2map_def Let_def split: option.splits)

lemma memid2index_maybe_add_memid:
  "memid2index (snd (maybe_add_memid memid s)) memid = Some (fst (maybe_add_memid memid s))"
  by (simp add: maybe_add_memid_def Let_def split: option.splits)

lemma set_loc_in_grid:
  "in_grid h i j s \<Longrightarrow> set_loc i j h t memid obstacle s = (Inr (), set_loc_state i j h t memid obstacle s)"
  by (simp add: set_loc_def set_loc_state_def split_beta Let_def memid2index_maybe_add_memid get_default_def
      thn_def set_cell_in_grid)


lemma memid2locs_update_observers [simp]:
  "in_grid h i j (s\<lparr>memid2locs := d\<rparr>) = in_grid h i j s"
  "get_cell m h i j (s\<lparr>memid2locs := d\<rparr>) = get_cell m h i j s"
  "real2map x z h (s\<lparr>memid2locs := d\<rparr>) = real2map x z h s"
  by (simp_all add: in_grid_def get_cell_def real2map_def Let_def split: option.splits)

lemma set_loc_state_fields [simp]:
  "index2memid (set_loc_state i j h t memid ob s) = index2memid (snd (maybe_add_memid memid s))"
  "memid2index (set_loc_state i j h t memid ob s) = memid2index (snd (maybe_add_memid memid s))"
  "examined (set_loc_state i j h t memid ob s) = examined s"
  "examined_id (set_loc_state i j h t memid ob s) = examined_id s"
  "last_examined (set_loc_state i j h t memid ob s) = last_examined s"
  "map_size (set_loc_state i j h t memid ob s) = map_size s"
  "pixels_per_unit (set_loc_state i j h t memid ob s) = pixels_per_unit s"
  "memid2locs (set_loc_state i j h t memid ob s) =
     (memid2locs s)(memid \<mapsto> add_key (ijh2idx i j h) (memid2locs s memid))"
  by (simp_all add: set_loc_state_def)

lemma set_loc_state_observers [simp]:
  "in_grid h' i' j' (set_loc_state i j h t memid ob s) = in_grid h' i' j' s"
  "real2map x z h' (set_loc_state i j h t memid ob s) = real2map x z h' s"
  by (simp_all add: set_loc_state_def)

lemma get_cell_set_loc_state:
  "in_grid h i j s \<Longrightarrow> 0 \<le> i' \<Longrightarrow> 0 \<le> j' \<Longrightarrow>
   get_cell m h' i' j' (set_loc_state i j h t memid ob s) =
     (if h' = h \<and> i' = i \<and> j' = j
      then Inr (case m of Updated \<Rightarrow> t | Map \<Rightarrow> (if ob then 1 else 0) | Memids \<Rightarrow> fst (maybe_add_memid memid s))
      else get_cell m h' i' j' s)"
  by (cases m) (simp_all add: set_loc_state_def get_cell_put_cell)

lemma maybe_delete_loc_in_grid:
  "in_grid h i j s \<Longrightarrow> current_memid i j h s = Inr cur \<Longrightarrow> memid = ''NULL'' \<or> cur = memid \<Longrightarrow>
   memid2index s ''NULL'' = Some 0 \<Longrightarrow>
   maybe_delete_loc i j h t memid s =
     (Inr (), (cleared h i j t s)\<lparr>memid2locs := pop_key memid (ijh2idx i j h) (memid2locs s)\<rparr>)"
  by (simp add: maybe_delete_loc_def thn_def set_cell_in_grid cleared_def)

lemma maybe_delete_loc_other:
  "current_memid i j h s = Inr cur \<Longrightarrow> memid \<noteq> ''NULL'' \<Longrightarrow> cur \<noteq> memid \<Longrightarrow>
   maybe_delete_loc i j h t memid s = (Inr (), s)"
  by (simp add: maybe_delete_loc_def)


subsection \<open>One change\<close>

lemma apply_change_set:
  assumes "c_pos c = Some (x, y, z)" "get_default (c_is_delete c) False = False"
    "get_default (c_is_move c) False = False"
    "real2map x z 0 s = Inr (i, j)" "overshoot i j s \<le> 0" "in_grid 0 i j s"
  shows "apply_change t c s =
     (Inr (), set_loc_state i j 0 t (get_default (c_memid c) ''NULL'') (get_default (c_is_obstacle c) True) s)"
  using assms by (simp add: apply_change_def y2slice_def thn_def set_loc_in_grid)

lemma apply_change_move:
  assumes "c_pos c = Some (x, y, z)" "get_default (c_is_delete c) False = False"
    "get_default (c_is_move c) False = True" "get_default (c_memid c) ''NULL'' = memid"
    "memid \<noteq> ''NULL''"
    "real2map x z 0 s = Inr (i, j)" "overshoot i j s \<le> 0"
  shows "apply_change t c s =
     thn (delete_loc_by_memid memid t True)
         (\<lambda>_. set_loc i j 0 t memid (get_default (c_is_obstacle c) True)) s"
  using assms by (simp add: apply_change_def y2slice_def)

lemma apply_change_delete:
  assumes "c_pos c = Some (x, y, z)" "get_default (c_is_delete c) False = True"
    "real2map x z 0 s = Inr (i, j)" "overshoot i j s \<le> 0"
  shows "apply_change t c s = maybe_delete_loc i j 0 t (get_default (c_memid c) ''NULL'') s"
  using assms by (simp add: apply_change_def y2slice_def)

lemma apply_change_far:
  assumes "c_pos c = Some (x, y, z)"
    "real2map x z 0 s = Inr (i, j)" "0 < overshoot i j s"
    "extend_map (Some (overshoot i j s)) 1 s = (Inr n, s1)"
    "real2map x z 0 s1 = Inr (i', j')" "0 < overshoot i' j' s1"
  shows "apply_change t c s = (Inr (), s1)"
  using assms by (simp add: apply_change_def y2slice_def)

subsection \<open>Observations of the fresh object\<close>

lemma fresh_fields [simp]:
  "index2memid fresh = [''NULL'', ''self'']"
  "memid2index fresh = [''NULL'' \<mapsto> 0, ''self'' \<mapsto> 1]"
  "examined fresh = []"
  "examined_id fresh = {}"
  "last_examined fresh = None"
  "maps_d fresh = [(Some 0, \<lparr>sl_updated = full 1027 (- 1), sl_map = full 1027 0, sl_memids = full 1027 0\<rparr>)]"
  "map_size fresh = 1027"
  "pixels_per_unit fresh = 1"
  "memid2locs fresh = Map.empty"
  by (simp_all add: fresh_eq)

lemma in_grid_fresh: "in_grid h i j fresh = (h = 0 \<and> 0 \<le> i \<and> i < 1027 \<and> 0 \<le> j \<and> j < 1027)"
  by (auto simp: in_grid_def full_def)

lemma get_cell_fresh:
  "0 \<le> i \<Longrightarrow> i < 1027 \<Longrightarrow> 0 \<le> j \<Longrightarrow> j < 1027 \<Longrightarrow>
   get_cell m 0 i j fresh = Inr (case m of Updated \<Rightarrow> - 1 | Map \<Rightarrow> 0 | Memids \<Rightarrow> 0)"
  by (cases m) (simp_all add: get_cell_def getitem_def py_index_def layer_get_def full_def)

lemma real2map_fresh: "real2map x z 0 fresh = Inr (py_round (x + 513), py_round (z + 513))"
  by (simp add: real2map_def full_def Let_def)

lemma py_round_of_int [simp]: "py_round (of_int n) = n"
  by (simp add: py_round_def)

subsection \<open>The examples, step by step\<close>

lemma real2map_fresh_origin: "real2map 0 0 0 fresh = Inr (513, 513)"
  using real2map_fresh [of 0 0] py_round_of_int [of 513] by simp

lemma maybe_add_memid_rock1_fresh:
  "fst (maybe_add_memid ''rock1'' fresh) = 2"
  "index2memid (snd (maybe_add_memid ''rock1'' fresh)) = [''NULL'', ''self'', ''rock1'']"
  "memid2index (snd (maybe_add_memid ''rock1'' fresh)) = [''NULL'' \<mapsto> 0, ''self'' \<mapsto> 1, ''rock1'' \<mapsto> 2]"
  by (simp_all add: maybe_add_memid_def)

lemma apply_insert_rock1:
  "apply_change t insert_rock1 fresh = (Inr (), set_loc_state 513 513 0 t ''rock1'' True fresh)"
  using apply_change_set [of insert_rock1 0 0 0 fresh 513 513 t]
  by (simp add: insert_rock1_def get_default_def real2map_fresh_origin overshoot_def in_grid_fresh)

lemma current_memid_rock1:
  "current_memid 513 513 0 (set_loc_state 513 513 0 t ''rock1'' True fresh) = Inr ''rock1''"
  by (simp add: current_memid_def get_cell_set_loc_state in_grid_fresh maybe_add_memid_rock1_fresh
      list_getitem_def py_index_def)

lemma apply_delete_at_origin:
  "apply_change t delete_at_origin (set_loc_state 513 513 0 t ''rock1'' True fresh) =
     (Inr (), (cleared 0 513 513 t (set_loc_state 513 513 0 t ''rock1'' True fresh))
        \<lparr>memid2locs := [''rock1'' \<mapsto> [ijh2idx 513 513 0]]\<rparr>)"
proof -
  let ?s = "set_loc_state 513 513 0 t ''rock1'' True fresh"
  have "apply_change t delete_at_origin ?s = maybe_delete_loc 513 513 0 t ''NULL'' ?s"
    using apply_change_delete [of delete_at_origin 0 0 0 ?s 513 513 t]
    by (simp add: delete_at_origin_def get_default_def real2map_fresh_origin overshoot_def)
  also have "\<dots> = (Inr (), (cleared 0 513 513 t ?s)
        \<lparr>memid2locs := pop_key ''NULL'' (ijh2idx 513 513 0) (memid2locs ?s)\<rparr>)"
    using maybe_delete_loc_in_grid [of 0 513 513 ?s "''rock1''" "''NULL''" t]
    by (simp add: in_grid_fresh current_memid_rock1 maybe_add_memid_rock1_fresh)
  finally show ?thesis by (simp add: pop_key_def add_key_def)
qed

lemma ijh2idx_values:
  "ijh2idx 513 513 0 = ''2102274''"
  "ijh2idx 514 513 0 = ''2106371''"
  "ijh2idx 518 518 0 = ''2122764''"
  by (simp_all add: ijh2idx_def py_str_def BIG_I_def BIG_J_def MAX_MAP_SIZE_def str_nat.simps digit_char_def)

lemma real2map_fresh_east: "real2map 1 0 0 fresh = Inr (514, 513)"
  using real2map_fresh [of 1 0] py_round_of_int [of 514] py_round_of_int [of 513] by simp

lemma apply_insert_rock1_east:
  "apply_change t insert_rock1_east (set_loc_state 513 513 0 t ''rock1'' True fresh)
     = (Inr (), set_loc_state 514 513 0 t ''rock1'' True (set_loc_state 513 513 0 t ''rock1'' True fresh))"
  using apply_change_set [of insert_rock1_east 1 0 0 "set_loc_state 513 513 0 t ''rock1'' True fresh" 514 513 t]
  by (simp add: insert_rock1_east_def get_default_def real2map_fresh_east overshoot_def in_grid_fresh)

lemma update_map_two_rocks:
  "update_map t [insert_rock1, insert_rock1_east] fresh
     = (Inr (), set_loc_state 514 513 0 t ''rock1'' True (set_loc_state 513 513 0 t ''rock1'' True fresh))"
  by (simp add: apply_insert_rock1 apply_insert_rock1_east)

subsection \<open>Growing a slice\<close>

lemma pad_padded:
  "0 \<le> shape0 a \<Longrightarrow> 1 \<le> e \<Longrightarrow> pad (shape0 a + 2 * e) e v a = Inr (padded v e a)"
  by (auto simp: pad_def padded_def Let_def fun_eq_iff)

lemma only_key: "map_of xs h = Some v \<Longrightarrow> length xs = 1 \<Longrightarrow> fst (hd xs) = h"
  by (cases xs) (auto split: if_splits)

lemma extend_map_existing:
  assumes "map_of (maps_d s) h = Some sl"
    and "shape0 (sl_updated sl) = shape0 (sl_map sl)"
    and "shape0 (sl_memids sl) = shape0 (sl_map sl)"
    and "0 \<le> shape0 (sl_map sl)"
    and "1 \<le> extension"
  shows "extend_map h extension s =
     (if shape0 (sl_map sl) + 2 * extension > MAX_MAP_SIZE then (Inr (- 1), s)
      else (Inr (shape0 (sl_map sl) + 2 * extension),
            s\<lparr>maps_d := AList.update h
                 \<lparr>sl_updated = padded (- 1) extension (sl_updated sl),
                  sl_map = padded 0 extension (sl_map sl),
                  sl_memids = padded 0 extension (sl_memids sl)\<rparr> (maps_d s)\<rparr>))"
proof -
  have h: "(if (h = None \<or> h = Some 0) \<and> length (maps_d s) = 1 then fst (hd (maps_d s)) else h) = h"
    using only_key [OF assms(1)] by simp
  have u: "pad (shape0 (sl_map sl) + 2 * extension) extension (- 1) (sl_updated sl)
      = Inr (padded (- 1) extension (sl_updated sl))"
    using pad_padded [of "sl_updated sl" extension "- 1"] assms by simp
  have m: "pad (shape0 (sl_map sl) + 2 * extension) extension 0 (sl_map sl)
      = Inr (padded 0 extension (sl_map sl))"
    using pad_padded [of "sl_map sl" extension 0] assms by simp
  have k: "pad (shape0 (sl_map sl) + 2 * extension) extension 0 (sl_memids sl)
      = Inr (padded 0 extension (sl_memids sl))"
    using pad_padded [of "sl_memids sl" extension 0] assms by simp
  have r: "\<And>a b c. sl\<lparr>sl_updated := a, sl_map := b, sl_memids := c\<rparr>
      = \<lparr>sl_updated = a, sl_map = b, sl_memids = c\<rparr>"
    by (cases sl) simp
  show ?thesis
    unfolding extend_map_def h
    using assms(1,5) by (simp add: Let_def u m k update_conv' r)
qed


lemma extend_map_negative: "extension < 0 \<Longrightarrow> extend_map h extension s = (Inl AssertionError, s)"
  by (simp add: extend_map_def)

lemma extend_map_zero_fresh: "extend_map (Some 0) 0 fresh = (Inl ValueError, fresh)"
  by (simp add: extend_map_def pad_def full_def Let_def MAX_MAP_SIZE_def)

lemma apply_move_rock1_origin:
  "apply_change t move_rock1_origin fresh = (Inr (), set_loc_state 513 513 0 t ''rock1'' True fresh)"
proof -
  have "apply_change t move_rock1_origin fresh =
      thn (delete_loc_by_memid ''rock1'' t True) (\<lambda>_. set_loc 513 513 0 t ''rock1'' True) fresh"
    using apply_change_move [of move_rock1_origin 0 0 0 "''rock1''" fresh 513 513 t]
    by (simp add: move_rock1_origin_def get_default_def real2map_fresh_origin overshoot_def)
  also have "\<dots> = set_loc 513 513 0 t ''rock1'' True fresh"
    by (simp add: thn_def delete_loc_by_memid_none)
  finally show ?thesis by (simp add: set_loc_in_grid in_grid_fresh)
qed

lemma real2map_fresh_far: "real2map 600 0 0 fresh = Inr (1113, 513)"
  using real2map_fresh [of 600 0] py_round_of_int [of 1113] py_round_of_int [of 513] by simp

lemma extend_map_87_fresh: "extend_map (Some 87) 1 fresh = (Inr 1027, far_slice)"
  by (simp add: extend_map_def far_slice_def Let_def init_slice_def pad_def full_def
      MAP_INIT_SIZE_def MAX_MAP_SIZE_def cong del: if_weak_cong)

lemma apply_insert_far: "apply_change t insert_far fresh = (Inr (), far_slice)"
proof (rule apply_change_far [of insert_far 600 0 0 fresh 1113 513 1027 far_slice 1113 513])
  show "c_pos insert_far = Some (600, 0, 0)" by (simp add: insert_far_def)
  show "real2map 600 0 0 fresh = Inr (1113, 513)" by (rule real2map_fresh_far)
  show "0 < overshoot 1113 513 fresh" by (simp add: overshoot_def)
  show "extend_map (Some (overshoot 1113 513 fresh)) 1 fresh = (Inr 1027, far_slice)"
    by (simp add: overshoot_def extend_map_87_fresh)
  show "real2map 600 0 0 far_slice = Inr (1113, 513)"
    using py_round_of_int [of 1113] py_round_of_int [of 513]
    by (simp add: real2map_def far_slice_def full_def Let_def)
  show "0 < overshoot 1113 513 far_slice" by (simp add: overshoot_def far_slice_def)
qed

subsection \<open>The tracker\<close>

lemma closest_loop_nonempty: "closest_loop xyz (kv # kvs) c dis = Inl TypeError"
  by (cases kv) (simp add: call_no_y_l1_def)

lemma get_closest_empty:
  "examined s = [] \<Longrightarrow> get_closest xyz s = (Inr xyz, s\<lparr>examined := [(xyz, 0)]\<rparr>)"
  by (simp add: get_closest_def)

lemma get_closest_nonempty:
  "examined s \<noteq> [] \<Longrightarrow> get_closest xyz s = (Inl TypeError, s)"
  by (cases "examined s") (simp_all add: get_closest_def closest_loop_nonempty)

lemma can_examine_last_set:
  "last_examined s = Some l \<Longrightarrow>
   can_examine x s =
     (if examined s = [] then (Inl AttributeError, s\<lparr>examined := [(t_xyz x, 0)]\<rparr>)
      else (Inl TypeError, s))"
  by (simp add: can_examine_def get_closest_empty get_closest_nonempty)

lemma update_visit_origin:
  "update visit_origin fresh =
     (Inr (), fresh\<lparr>last_examined := Some (0, 0, 0), examined_id := {1}, examined := [((0, 0, 0), 1)]\<rparr>)"
  by (simp add: update_def visit_origin_def get_closest_empty)

subsection \<open>A move of a memid with one location\<close>

lemma maybe_add_memid_known: "memid2index s memid = Some k \<Longrightarrow> maybe_add_memid memid s = (k, s)"
  by (simp add: maybe_add_memid_def)

lemma py_index_range: "py_index n c = Inr k \<Longrightarrow> 0 \<le> k \<and> k < n"
  by (auto simp: py_index_def split: if_splits)

lemma reg_inv_lookup:
  assumes "reg_inv s" "memid2index s memid = Some k"
  shows "list_getitem (index2memid s) k = Inr memid"
proof -
  from assms have k: "0 \<le> k" "nat k < length (index2memid s)" "index2memid s ! nat k = memid"
    by (auto simp: reg_inv_def)
  then have "k < int (length (index2memid s))" by linarith
  with k show ?thesis by (simp add: list_getitem_def py_index_def)
qed

lemma list_getitem_registered:
  assumes "reg_inv s" "list_getitem (index2memid s) c = Inr memid"
  shows "\<exists>k. memid2index s memid = Some k"
proof -
  from assms(2) obtain k where k: "py_index (int (length (index2memid s))) c = Inr k"
      "index2memid s ! nat k = memid"
    by (auto simp: list_getitem_def split: sum.splits)
  from py_index_range [OF k(1)] have "nat k < length (index2memid s)" by linarith
  with assms(1) have "memid2index s (index2memid s ! nat k) = Some (int (nat k))"
    by (simp add: reg_inv_def)
  with k(2) show ?thesis by auto
qed

lemma move_one_state:
  assumes c: "c_pos c = Some (x, y, z)" "c_memid c = Some memid" "c_is_move c = Some True"
      "get_default (c_is_delete c) False = False"
    and memid: "memid \<noteq> []" "memid \<noteq> ''NULL''"
    and own: "memid2locs s memid = Some [ijh2idx i0 j0 0]" "in_grid 0 i0 j0 s"
      "i0 < MAX_MAP_SIZE" "j0 < MAX_MAP_SIZE"
    and tgt: "real2map x z 0 s = Inr (i, j)" "overshoot i j s \<le> 0" "in_grid 0 i j s"
  shows "update_map t [c] s =
     (Inr (), set_loc_state i j 0 t memid (get_default (c_is_obstacle c) True)
                ((cleared 0 i0 j0 t s)\<lparr>memid2locs := (memid2locs s)(memid := None)\<rparr>))"
proof -
  let ?s1 = "(cleared 0 i0 j0 t s)\<lparr>memid2locs := (memid2locs s)(memid := None)\<rparr>"
  have "apply_change t c s =
      thn (delete_loc_by_memid memid t True)
          (\<lambda>_. set_loc i j 0 t memid (get_default (c_is_obstacle c) True)) s"
    using c memid tgt by (intro apply_change_move) (simp_all add: get_default_def)
  also have "delete_loc_by_memid memid t True s = (Inr (), ?s1)"
    using memid own by (intro delete_loc_by_memid_one) (simp_all add: BIG_I_def BIG_J_def)
  then have "thn (delete_loc_by_memid memid t True)
          (\<lambda>_. set_loc i j 0 t memid (get_default (c_is_obstacle c) True)) s
      = set_loc i j 0 t memid (get_default (c_is_obstacle c) True) ?s1"
    by (simp add: thn_def)
  also have "\<dots> = (Inr (), set_loc_state i j 0 t memid (get_default (c_is_obstacle c) True) ?s1)"
    using tgt by (intro set_loc_in_grid) simp
  finally show ?thesis by simp
qed


lemma move_one_cell:
  assumes c: "c_pos c = Some (x, y, z)" "c_memid c = Some memid" "c_is_move c = Some True"
      "get_default (c_is_delete c) False = False"
    and memid: "memid \<noteq> []" "memid \<noteq> ''NULL''"
    and reg: "reg_inv s" "memid2index s ''NULL'' = Some 0"
    and own: "memid2locs s memid = Some [ijh2idx i0 j0 0]" "in_grid 0 i0 j0 s"
      "i0 < MAX_MAP_SIZE" "j0 < MAX_MAP_SIZE" "current_memid i0 j0 0 s = Inr memid"
      "\<And>a b. in_grid 0 a b s \<Longrightarrow> current_memid a b 0 s = Inr memid \<Longrightarrow> a = i0 \<and> b = j0"
    and tgt: "real2map x z 0 s = Inr (i, j)" "overshoot i j s \<le> 0" "in_grid 0 i j s"
  shows "fst (update_map t [c] s) = Inr ()
     \<and> memid2locs (snd (update_map t [c] s)) memid = Some [ijh2idx i j 0]
     \<and> current_memid i j 0 (snd (update_map t [c] s)) = Inr memid
     \<and> get_cell Map 0 i j (snd (update_map t [c] s))
          = Inr (if get_default (c_is_obstacle c) True then 1 else 0)
     \<and> get_cell Updated 0 i j (snd (update_map t [c] s)) = Inr t
     \<and> ((i0, j0) \<noteq> (i, j) \<longrightarrow>
            current_memid i0 j0 0 (snd (update_map t [c] s)) = Inr ''NULL''
          \<and> get_cell Map 0 i0 j0 (snd (update_map t [c] s)) = Inr 0
          \<and> get_cell Updated 0 i0 j0 (snd (update_map t [c] s)) = Inr t)
     \<and> (\<forall>a b. in_grid 0 a b (snd (update_map t [c] s))
            \<and> current_memid a b 0 (snd (update_map t [c] s)) = Inr memid \<longrightarrow> a = i \<and> b = j)"
proof -
  let ?ob = "get_default (c_is_obstacle c) True"
  let ?s1 = "(cleared 0 i0 j0 t s)\<lparr>memid2locs := (memid2locs s)(memid := None)\<rparr>"
  let ?s' = "set_loc_state i j 0 t memid ?ob ?s1"
  have r: "update_map t [c] s = (Inr (), ?s')"
    using c memid own(1-4) tgt by (rule move_one_state)
  obtain k where k: "memid2index s memid = Some k"
    using list_getitem_registered [OF reg(1)] own(5)
    by (auto simp: current_memid_def split: sum.splits)
  have add: "maybe_add_memid memid ?s1 = (k, ?s1)"
    using k by (intro maybe_add_memid_known) simp
  have fk: "fst (maybe_add_memid memid ?s1) = k" by (simp add: add)
  have nn: "0 \<le> i" "0 \<le> j" "0 \<le> i0" "0 \<le> j0"
    using tgt(3) own(2) by (simp_all add: in_grid_nonneg)
  have g1: "in_grid 0 i j ?s1" using tgt(3) by simp
  have cell: "get_cell m 0 a b ?s' =
      (if a = i \<and> b = j then Inr (case m of Updated \<Rightarrow> t | Map \<Rightarrow> (if ?ob then 1 else 0) | Memids \<Rightarrow> k)
       else if a = i0 \<and> b = j0 then Inr (case m of Updated \<Rightarrow> t | Map \<Rightarrow> 0 | Memids \<Rightarrow> 0)
       else get_cell m 0 a b s)" if "0 \<le> a" "0 \<le> b" for m a b
    using that g1 own(2) by (cases m) (simp_all add: get_cell_set_loc_state fk get_cell_cleared)
  have idx: "index2memid ?s' = index2memid s" by (simp add: add)
  have cur: "current_memid a b 0 ?s' =
      (if a = i \<and> b = j then Inr memid
       else if a = i0 \<and> b = j0 then Inr ''NULL''
       else current_memid a b 0 s)" if "0 \<le> a" "0 \<le> b" for a b
    unfolding current_memid_def idx cell [OF that]
    using reg_inv_lookup [OF reg(1) k] reg_inv_lookup [OF reg(1,2)] by auto
  have locs: "memid2locs ?s' memid = Some [ijh2idx i j 0]"
    by (simp add: add_key_def)
  have uniq: "\<forall>a b. in_grid 0 a b ?s' \<and> current_memid a b 0 ?s' = Inr memid \<longrightarrow> a = i \<and> b = j"
  proof (intro allI impI)
    fix a b
    assume h: "in_grid 0 a b ?s' \<and> current_memid a b 0 ?s' = Inr memid"
    then have g: "in_grid 0 a b s" by simp
    then have ab: "0 \<le> a" "0 \<le> b" by (simp_all add: in_grid_nonneg)
    show "a = i \<and> b = j"
    proof (rule ccontr)
      assume n: "\<not> (a = i \<and> b = j)"
      show False
      proof (cases "a = i0 \<and> b = j0")
        case True
        with h n ab memid show False by (auto simp: cur split: if_splits)
      next
        case False
        with h n ab have "current_memid a b 0 s = Inr memid" by (auto simp: cur split: if_splits)
        with own(6) [OF g] False show False by simp
      qed
    qed
  qed
  show ?thesis
    unfolding r fst_conv snd_conv
    using locs uniq nn memid by (simp add: cur cell)
qed

subsection \<open>The registry under the operations\<close>

lemma reg_inv_registry: "registry s' = registry s \<Longrightarrow> reg_inv s' = reg_inv s"
  by (simp add: registry_def reg_inv_def)

lemma reg_extends_registry: "registry s' = registry s \<Longrightarrow> reg_extends s0 s' = reg_extends s0 s"
  by (simp add: registry_def reg_extends_def)

lemma reg_extends_refl: "reg_extends s s"
  by (simp add: reg_extends_def)

lemma reg_extends_trans: "reg_extends s s' \<Longrightarrow> reg_extends s' s'' \<Longrightarrow> reg_extends s s''"
proof -
  assume a: "reg_extends s s'" and b: "reg_extends s' s''"
  let ?n = "length (index2memid s)" and ?n' = "length (index2memid s')"
  have le: "?n \<le> ?n'" using a by (simp add: reg_extends_def)
  have "take ?n (index2memid s'') = take ?n (take ?n' (index2memid s''))"
    using le by (simp add: min_def)
  also have "\<dots> = take ?n (index2memid s')" using b by (simp add: reg_extends_def)
  also have "\<dots> = index2memid s" using a by (simp add: reg_extends_def)
  finally show ?thesis using a b by (simp add: reg_extends_def)
qed

lemma reg_inv_maybe_add_memid: "reg_inv s \<Longrightarrow> reg_inv (snd (maybe_add_memid m s))"
proof (cases "memid2index s m")
  case (Some k)
  assume "reg_inv s"
  with Some show ?thesis by (simp add: maybe_add_memid_def)
next
  case None
  assume r: "reg_inv s"
  let ?xs = "index2memid s"
  have notin: "\<And>n. n < length ?xs \<Longrightarrow> ?xs ! n \<noteq> m"
    using r None by (auto simp: reg_inv_def)
  have a: "\<And>m' k. ((memid2index s)(m \<mapsto> int (length ?xs))) m' = Some k \<Longrightarrow>
      0 \<le> k \<and> nat k < length (?xs @ [m]) \<and> (?xs @ [m]) ! nat k = m'"
    using r by (auto simp: reg_inv_def nth_append split: if_splits)
  have b: "\<And>n. n < length (?xs @ [m]) \<Longrightarrow>
      ((memid2index s)(m \<mapsto> int (length ?xs))) ((?xs @ [m]) ! n) = Some (int n)"
    using r notin by (auto simp: reg_inv_def nth_append less_Suc_eq)
  show ?thesis
    using None a b by (simp add: maybe_add_memid_def Let_def reg_inv_def)
qed

lemma reg_extends_maybe_add_memid: "reg_extends s (snd (maybe_add_memid m s))"
  by (cases "memid2index s m") (auto simp: maybe_add_memid_def Let_def reg_extends_def)

lemma registry_maybe_add_memid:
  "registry s' = registry s \<Longrightarrow>
   registry (snd (maybe_add_memid m s')) = registry (snd (maybe_add_memid m s))"
  by (cases "memid2index s m") (auto simp: maybe_add_memid_def Let_def registry_def)

lemma thn_snd:
  "snd (thn m f s) = (case fst (m s) of Inl e \<Rightarrow> snd (m s) | Inr a \<Rightarrow> snd (f a (snd (m s))))"
  by (simp add: thn_def split: prod.splits sum.splits)

lemma registry_updates [simp]:
  "registry (s\<lparr>memid2locs := d\<rparr>) = registry s"
  "registry (s\<lparr>maps_d := ms\<rparr>) = registry s"
  "registry (s\<lparr>map_size := n\<rparr>) = registry s"
  "registry (s\<lparr>examined := ex\<rparr>) = registry s"
  "registry (s\<lparr>examined_id := ids\<rparr>) = registry s"
  "registry (s\<lparr>last_examined := l\<rparr>) = registry s"
  by (simp_all add: registry_def)

lemma registry_put_cell [simp]: "registry (put_cell m h i j v s) = registry s"
  by (simp add: registry_def)

lemma registry_set_cell [simp]: "registry (snd (set_cell m h i j v s)) = registry s"
  using registry_put_cell [of m h i j v s] by (simp add: put_cell_def)

lemma registry_clear_loc [simp]: "registry (snd (clear_loc idx t s)) = registry s"
  by (simp add: clear_loc_def thn_snd split: sum.splits prod.splits)

lemma registry_delete_loop [simp]: "registry (snd (delete_loop t mv n idxs s)) = registry s"
proof (induction idxs arbitrary: n s)
  case Nil
  show ?case by simp
next
  case (Cons idx idxs)
  have "registry (snd (clear_loc idx t s)) = registry s" by simp
  then show ?case
    by (cases "clear_loc idx t s") (auto simp: Let_def Cons.IH split: sum.splits)
qed

lemma registry_delete_loc_by_memid [simp]:
  "registry (snd (delete_loc_by_memid memid t mv s)) = registry s"
proof -
  let ?ks = "case memid2locs s memid of None \<Rightarrow> [] | Some ks \<Rightarrow> ks"
  have "registry (snd (delete_loop t mv 0 ?ks s)) = registry s" by simp
  then show ?thesis
    by (cases "delete_loop t mv 0 ?ks s")
      (auto simp: delete_loc_by_memid_def split: sum.splits)
qed

lemma registry_maybe_delete_loc [simp]:
  "registry (snd (maybe_delete_loc i j h t memid s)) = registry s"
  by (simp add: maybe_delete_loc_def thn_snd split: sum.splits option.splits)


lemma registry_extend_map [simp]: "registry (snd (extend_map h extension s)) = registry s"
  by (simp add: extend_map_def Let_def split: option.splits sum.splits)

lemma registry_set_loc:
  "registry (snd (set_loc i j h t memid ob s)) = registry (snd (maybe_add_memid memid s))"
  by (simp add: set_loc_def split_beta Let_def thn_snd split: sum.splits)


lemma apply_change_pos:
  assumes "c_pos c = Some (x, y, z)" "real2map x z 0 s = Inr (i, j)"
  shows "apply_change t c s =
        (case (if overshoot i j s > 0 then extend_map (Some (overshoot i j s)) 1 s else (Inr 0, s)) of
           (Inl e, s1) \<Rightarrow> (Inl e, s1)
         | (Inr _, s1) \<Rightarrow>
             (case real2map x z 0 s1 of
                Inl e \<Rightarrow> (Inl e, s1)
              | Inr (i, j) \<Rightarrow>
                  if overshoot i j s1 > 0 then (Inr (), s1)
                  else if get_default (c_is_delete c) False then maybe_delete_loc i j 0 t (get_default (c_memid c) ''NULL'') s1
                  else
                    thn (\<lambda>s2. if get_default (c_is_move c) False
                               then (if (get_default (c_memid c) ''NULL'') = ''NULL'' then (Inl AssertionError, s2)
                                     else delete_loc_by_memid (get_default (c_memid c) ''NULL'') t True s2)
                               else (Inr (), s2))
                        (\<lambda>_. set_loc i j 0 t (get_default (c_memid c) ''NULL'') (get_default (c_is_obstacle c) True))
                        s1))"
  unfolding apply_change_def Let_def y2slice_def assms option.case prod.case sum.case ..


lemma registry_apply_change:
  "registry (snd (apply_change t c s)) = registry s
   \<or> registry (snd (apply_change t c s)) = registry (snd (maybe_add_memid (get_default (c_memid c) ''NULL'') s))"
proof (cases "c_pos c")
  case None
  then show ?thesis by (simp add: apply_change_def Let_def)
next
  case (Some p)
  obtain x y z where p: "p = (x, y, z)" by (cases p) auto
  let ?memid = "get_default (c_memid c) ''NULL''"
  let ?mv = "get_default (c_is_move c) False"
  show ?thesis
  proof (cases "real2map x z 0 s")
    case (Inl e)
    with Some p show ?thesis by (simp add: apply_change_def Let_def y2slice_def)
  next
    case (Inr ij)
    obtain i j where ij: "ij = (i, j)" by (cases ij) auto
    define r where "r = (if overshoot i j s > 0 then extend_map (Some (overshoot i j s)) 1 s else (Inr 0, s))"
    have r: "registry (snd r) = registry s" by (simp add: r_def)
    obtain v s1 where rs: "r = (v, s1)" by (cases r) auto
    with r have s1: "registry s1 = registry s" by simp
    have pos: "c_pos c = Some (x, y, z)" using Some p by simp
    have rm: "real2map x z 0 s = Inr (i, j)" using Inr ij by simp
    note unf = apply_change_pos [OF pos rm, of t, folded r_def, unfolded rs prod.case]
    show ?thesis
    proof (cases v)
      case (Inl e)
      with s1 show ?thesis unfolding unf by simp
    next
      case v: (Inr n)
      note unf2 = unf [unfolded v sum.case]
      show ?thesis
      proof (cases "real2map x z 0 s1")
        case (Inl e)
        with s1 show ?thesis unfolding unf2 by simp
      next
        case r2: (Inr ij')
        obtain i' j' where ij': "ij' = (i', j')" by (cases ij') auto
        note eq = unf2 [unfolded r2 ij' sum.case prod.case]
        let ?A = "\<lambda>s2. if ?mv
                               then (if ?memid = ''NULL'' then (Inl AssertionError, s2)
                                     else delete_loc_by_memid ?memid t True s2)
                               else (Inr (), s2)"
        let ?B = "\<lambda>_::unit. set_loc i' j' 0 t ?memid (get_default (c_is_obstacle c) True)"
        have a: "registry (snd (?A s1)) = registry s" using s1 by simp
        have b: "registry (snd (?B u (snd (?A s1)))) = registry (snd (maybe_add_memid ?memid s))" for u
          using registry_maybe_add_memid [OF a] by (simp only: registry_set_loc)
        have ab: "registry (snd (thn ?A ?B s1)) = registry s
            \<or> registry (snd (thn ?A ?B s1)) = registry (snd (maybe_add_memid ?memid s))"
        proof (cases "fst (?A s1)")
          case (Inl e)
          then show ?thesis using a by (simp only: thn_snd sum.case) simp
        next
          case (Inr u)
          then show ?thesis using b by (simp only: thn_snd sum.case) simp
        qed
        show ?thesis
        proof (cases "overshoot i' j' s1 > 0")
          case True
          then show ?thesis unfolding eq using s1 by simp
        next
          case False
          show ?thesis
          proof (cases "get_default (c_is_delete c) False")
            case True
            with False show ?thesis unfolding eq using s1 by simp
          next
            case d: False
            have "apply_change t c s = thn ?A ?B s1" unfolding eq using False d by simp
            then show ?thesis using ab by simp
          qed
        qed
      qed
    qed
  qed
qed

subsection \<open>The object with one rock\<close>

lemma reg_inv_fresh: "reg_inv fresh"
  by (auto simp: reg_inv_def less_Suc_eq numeral_2_eq_2 split: if_splits)

lemma rock1_placed:
  "update_map t [insert_rock1] fresh = (Inr (), set_loc_state 513 513 0 t ''rock1'' True fresh)"
  by (simp add: apply_insert_rock1)

lemma rock1_placed_facts:
  "reg_inv (set_loc_state 513 513 0 t ''rock1'' True fresh)"
  "memid2index (set_loc_state 513 513 0 t ''rock1'' True fresh) ''NULL'' = Some 0"
  "memid2locs (set_loc_state 513 513 0 t ''rock1'' True fresh) ''rock1'' = Some [ijh2idx 513 513 0]"
  "real2map 5 5 0 (set_loc_state 513 513 0 t ''rock1'' True fresh) = Inr (518, 518)"
  "overshoot 518 518 (set_loc_state 513 513 0 t ''rock1'' True fresh) \<le> 0"
proof -
  let ?s = "set_loc_state 513 513 0 t ''rock1'' True fresh"
  have "registry ?s = registry (snd (maybe_add_memid ''rock1'' fresh))"
    by (simp add: registry_def)
  from reg_inv_registry [OF this] show "reg_inv ?s"
    using reg_inv_maybe_add_memid [OF reg_inv_fresh, of "''rock1''"] by simp
  show "memid2index ?s ''NULL'' = Some 0" by (simp add: maybe_add_memid_rock1_fresh)
  show "memid2locs ?s ''rock1'' = Some [ijh2idx 513 513 0]" by (simp add: add_key_def)
  show "real2map 5 5 0 ?s = Inr (518, 518)"
    using real2map_fresh [of 5 5] py_round_of_int [of 518] by simp
  show "overshoot 518 518 ?s \<le> 0" by (simp add: overshoot_def)
qed

lemma rock1_placed_only:
  assumes "in_grid 0 a b (set_loc_state 513 513 0 t ''rock1'' True fresh)"
    and "current_memid a b 0 (set_loc_state 513 513 0 t ''rock1'' True fresh) = Inr ''rock1''"
  shows "a = 513 \<and> b = 513"
proof (rule ccontr)
  assume n: "\<not> (a = 513 \<and> b = 513)"
  from assms(1) have r: "0 \<le> a" "a < 1027" "0 \<le> b" "b < 1027" by (simp_all add: in_grid_fresh)
  with n have "get_cell Memids 0 a b (set_loc_state 513 513 0 t ''rock1'' True fresh) = Inr 0"
    by (auto simp: get_cell_set_loc_state in_grid_fresh get_cell_fresh)
  then have "current_memid a b 0 (set_loc_state 513 513 0 t ''rock1'' True fresh) = Inr ''NULL''"
    by (simp add: current_memid_def maybe_add_memid_rock1_fresh list_getitem_def py_index_def)
  with assms(2) show False by simp
qed


lemma move_rock1_away_free_state:
  "update_map 2 [move_rock1_away_free] (set_loc_state 513 513 0 1 ''rock1'' True fresh) =
     (Inr (), set_loc_state 518 518 0 2 ''rock1'' (get_default (c_is_obstacle move_rock1_away_free) True)
        ((cleared 0 513 513 2 (set_loc_state 513 513 0 1 ''rock1'' True fresh))
          \<lparr>memid2locs := (memid2locs (set_loc_state 513 513 0 1 ''rock1'' True fresh))(''rock1'' := None)\<rparr>))"
proof (rule move_one_state [where x = 5 and y = 0 and z = 5])
  let ?s = "set_loc_state 513 513 0 1 ''rock1'' True fresh"
  show "c_pos move_rock1_away_free = Some (5, 0, 5)" by (simp add: move_rock1_away_free_def)
  show "c_memid move_rock1_away_free = Some ''rock1''" by (simp add: move_rock1_away_free_def)
  show "c_is_move move_rock1_away_free = Some True" by (simp add: move_rock1_away_free_def)
  show "get_default (c_is_delete move_rock1_away_free) False = False"
    by (simp add: move_rock1_away_free_def get_default_def)
  show "''rock1'' \<noteq> []" by simp
  show "''rock1'' \<noteq> ''NULL''" by simp
  show "memid2locs ?s ''rock1'' = Some [ijh2idx 513 513 0]" by (rule rock1_placed_facts(3))
  show "in_grid 0 513 513 ?s" by (simp add: in_grid_fresh)
  show "513 < MAX_MAP_SIZE" by (simp add: MAX_MAP_SIZE_def)
  show "513 < MAX_MAP_SIZE" by (simp add: MAX_MAP_SIZE_def)
  show "real2map 5 5 0 ?s = Inr (518, 518)" by (rule rock1_placed_facts(4))
  show "overshoot 518 518 ?s \<le> 0" by (rule rock1_placed_facts(5))
  show "in_grid 0 518 518 ?s" by (simp add: in_grid_fresh)
qed

subsection \<open>The registry under any sequence of calls\<close>

lemma reg_ok_registry: "registry s' = registry s \<Longrightarrow> reg_ok s0 s \<Longrightarrow> reg_ok s0 s'"
  using reg_inv_registry [of s' s] reg_extends_registry [of s' s s0] by (simp add: reg_ok_def)

lemma reg_ok_maybe_add_memid: "reg_ok s0 s \<Longrightarrow> reg_ok s0 (snd (maybe_add_memid m s))"
  using reg_inv_maybe_add_memid [of s m] reg_extends_maybe_add_memid [of s m]
    reg_extends_trans [of s0 s "snd (maybe_add_memid m s)"]
  by (simp add: reg_ok_def)

lemma reg_ok_apply_change: "reg_ok s0 s \<Longrightarrow> reg_ok s0 (snd (apply_change t c s))"
  using registry_apply_change [of t c s] reg_ok_maybe_add_memid [of s0 s "get_default (c_memid c) ''NULL''"]
    reg_ok_registry [of "snd (apply_change t c s)" s s0]
    reg_ok_registry [of "snd (apply_change t c s)" "snd (maybe_add_memid (get_default (c_memid c) ''NULL'') s)" s0]
  by blast

lemma reg_ok_update_map: "reg_ok s0 s \<Longrightarrow> reg_ok s0 (snd (update_map t cs s))"
proof (induction cs arbitrary: s)
  case Nil
  then show ?case by simp
next
  case (Cons c cs)
  from Cons.prems have a: "reg_ok s0 (snd (apply_change t c s))" by (rule reg_ok_apply_change)
  show ?case
  proof (cases "apply_change t c s")
    case (Pair v s1)
    with a have s1: "reg_ok s0 s1" by simp
    show ?thesis
    proof (cases v)
      case (Inl e)
      with Pair s1 show ?thesis by simp
    next
      case (Inr u)
      with Pair Cons.IH [OF s1] show ?thesis by simp
    qed
  qed
qed

lemma registry_get_closest [simp]: "registry (snd (get_closest xyz s)) = registry s"
  by (simp add: get_closest_def split: sum.splits option.splits)

lemma registry_update [simp]: "registry (snd (update tg s)) = registry s"
proof (cases "get_closest (t_xyz tg) s")
  case (Pair v s1)
  have "registry (snd (get_closest (t_xyz tg) s)) = registry s" by simp
  with Pair have "registry s1 = registry s" by simp
  with Pair show ?thesis
    by (simp add: update_def Let_def registry_def split: sum.splits option.splits)
qed

lemma registry_can_examine [simp]: "registry (snd (can_examine x s)) = registry s"
proof (cases "get_closest (t_xyz x) s")
  case (Pair v s1)
  have "registry (snd (get_closest (t_xyz x) s)) = registry s" by simp
  with Pair have "registry s1 = registry s" by simp
  with Pair show ?thesis
    by (simp add: can_examine_def split: sum.splits option.splits)
qed

lemma registry_clear_examined [simp]: "registry (snd (clear_examined s)) = registry s"
  by (simp add: clear_examined_def registry_def)

lemma snd_outcome [simp]: "snd (outcome r) = snd r"
  by (simp add: outcome_def split: prod.splits sum.splits)

lemma reg_ok_do_call: "reg_ok s0 s \<Longrightarrow> reg_ok s0 (snd (do_call c s))"
proof (cases c)
  case (Update_map t cs)
  assume "reg_ok s0 s"
  with Update_map show ?thesis by (simp add: reg_ok_update_map)
next
  case (Maybe_add_memid m)
  assume "reg_ok s0 s"
  with Maybe_add_memid show ?thesis by (simp add: reg_ok_maybe_add_memid)
qed (auto intro: reg_ok_registry simp: pop_memid_loc_def)

lemma reg_ok_run: "reg_ok s0 s \<Longrightarrow> reg_ok s0 (run cs s)"
  by (induction cs arbitrary: s) (simp_all add: reg_ok_do_call)

lemma reg_inv_init:
  assumes "PlaceField_init self_memid ppu = Inr s0"
  shows "reg_inv s0"
proof -
  define e where "e = \<lparr>index2memid = [], memid2index = Map.empty, examined = [], examined_id = {},
                last_examined = None, maps_d = [], map_size = 0, pixels_per_unit = ppu,
                memid2locs = Map.empty\<rparr>"
  define s2 where "s2 = snd (maybe_add_memid self_memid (snd (maybe_add_memid ''NULL'' e)))"
  have "reg_inv e" by (simp add: reg_inv_def e_def)
  then have r2: "reg_inv s2" unfolding s2_def by (intro reg_inv_maybe_add_memid)
  have "registry (snd (extend_map (Some 0) 1 s2)) = registry s2" by simp
  moreover from assms obtain n where "s0 = (snd (extend_map (Some 0) 1 s2))\<lparr>map_size := n\<rparr>"
    unfolding PlaceField_init_def Let_def e_def [symmetric] s2_def [symmetric]
    by (auto split: prod.splits sum.splits)
  ultimately have "registry s0 = registry s2" by simp
  from reg_inv_registry [OF this] r2 show ?thesis by simp
qed


lemma registry_facts:
  assumes "reg_inv s"
  shows "maybe_add_memid tok (snd (maybe_add_memid tok s))
           = (fst (maybe_add_memid tok s), snd (maybe_add_memid tok s))
     \<and> (memid2index s tok = None \<longrightarrow>
            fst (maybe_add_memid tok s) = int (length (index2memid s))
          \<and> index2memid (snd (maybe_add_memid tok s)) = index2memid s @ [tok])
     \<and> (\<forall>k. memid2index s tok = Some k \<longrightarrow> maybe_add_memid tok s = (k, s))
     \<and> ran (memid2index s) = {k. 0 \<le> k \<and> k < int (length (index2memid s))}
     \<and> (\<forall>m m' k. memid2index s m = Some k \<and> memid2index s m' = Some k \<longrightarrow> m = m')
     \<and> (\<forall>m k. memid2index s m = Some k \<longrightarrow>
            memid2index (run later s) m = Some k
          \<and> list_getitem (index2memid (run later s)) k = Inr m
          \<and> (\<forall>m'. memid2index (run later s) m' = Some k \<longrightarrow> m' = m))"
proof -
  have idem: "maybe_add_memid tok (snd (maybe_add_memid tok s))
           = (fst (maybe_add_memid tok s), snd (maybe_add_memid tok s))"
    by (rule maybe_add_memid_known) (rule memid2index_maybe_add_memid)
  have new: "memid2index s tok = None \<longrightarrow>
            fst (maybe_add_memid tok s) = int (length (index2memid s))
          \<and> index2memid (snd (maybe_add_memid tok s)) = index2memid s @ [tok]"
    by (simp add: maybe_add_memid_def Let_def)
  have old: "\<forall>k. memid2index s tok = Some k \<longrightarrow> maybe_add_memid tok s = (k, s)"
    by (simp add: maybe_add_memid_known)
  have sub: "k \<in> ran (memid2index s) \<Longrightarrow> 0 \<le> k \<and> k < int (length (index2memid s))" for k
    using assms by (fastforce simp: ran_def reg_inv_def)
  have sup: "k \<in> ran (memid2index s)" if "0 \<le> k" "k < int (length (index2memid s))" for k
  proof -
    from that have "nat k < length (index2memid s)" by linarith
    with assms have "memid2index s (index2memid s ! nat k) = Some (int (nat k))"
      by (simp add: reg_inv_def)
    with that(1) show ?thesis by (auto simp: ran_def)
  qed
  have dense: "ran (memid2index s) = {k. 0 \<le> k \<and> k < int (length (index2memid s))}"
    using sub sup by blast
  have inj: "m = m'" if "reg_inv u" "memid2index u m = Some k" "memid2index u m' = Some k" for u m m' k
  proof -
    from that(1,2) have "index2memid u ! nat k = m" unfolding reg_inv_def by blast
    moreover from that(1,3) have "index2memid u ! nat k = m'" unfolding reg_inv_def by blast
    ultimately show ?thesis by simp
  qed
  have "reg_ok s s" using assms by (simp add: reg_ok_def reg_extends_refl)
  then have ok: "reg_ok s (run later s)" by (rule reg_ok_run)
  have stable: "memid2index (run later s) m = Some k
          \<and> list_getitem (index2memid (run later s)) k = Inr m
          \<and> (\<forall>m'. memid2index (run later s) m' = Some k \<longrightarrow> m' = m)"
    if "memid2index s m = Some k" for m k
  proof -
    from ok that have a: "memid2index (run later s) m = Some k"
      by (simp add: reg_ok_def reg_extends_def)
    from ok have r: "reg_inv (run later s)" by (simp add: reg_ok_def)
    from reg_inv_lookup [OF r a] a inj [OF r _ a] show ?thesis by blast
  qed
  show ?thesis
    using idem new old dense inj [OF assms] stable by blast
qed


lemma PlaceField_init_fresh: "PlaceField_init ''self'' 1 = Inr fresh"
  by (simp add: PlaceField_init_eq fresh_eq)

subsection \<open>The claims\<close>

text \<open>
  C1, on the code. The claim: after any sequence of \<^verbatim>\<open>update_map\<close> calls on a fresh
  PlaceField, a cell has the owner \<open>X\<close> exactly when its key is in \<^verbatim>\<open>memid2locs[X]\<close>.
  The batch that places \<^verbatim>\<open>"rock1"\<close> at the origin and then deletes the origin without
  naming a memid returns normally; afterwards the cell \<open>(513, 513)\<close> of slice 0 is owned
  by \<^verbatim>\<open>"NULL"\<close>, and \<^verbatim>\<open>memid2locs["rock1"]\<close> still holds the key of that cell.
\<close>

theorem delete_without_memid_leaves_key:
  "real2map 0 0 0 fresh = Inr (513, 513)
   \<and> fst (update_map 1 [insert_rock1, delete_at_origin] fresh) = Inr ()
   \<and> current_memid 513 513 0 (snd (update_map 1 [insert_rock1, delete_at_origin] fresh)) = Inr ''NULL''
   \<and> memid2locs (snd (update_map 1 [insert_rock1, delete_at_origin] fresh)) ''rock1''
       = Some [ijh2idx 513 513 0]"
  by (simp add: real2map_fresh_origin apply_insert_rock1 apply_delete_at_origin current_memid_def
      get_cell_cleared in_grid_fresh maybe_add_memid_rock1_fresh list_getitem_def py_index_def)

text \<open>
  C7, as amended. For every existing slice whose three arrays have the same side \<open>w\<close>
  and every extension of at least 1, \<^verbatim>\<open>extend_map\<close> returns -1 and leaves the object
  unchanged when \<open>w + 2 * extension\<close> exceeds \<open>MAX_MAP_SIZE\<close>; otherwise it returns
  \<open>w + 2 * extension\<close> and replaces each of the three arrays by the array padded with
  \<open>extension\<close> default cells on every side (-1 for \<^verbatim>\<open>"updated"\<close>, 0 for the other two)
  with the old content in the centre. For a negative extension it raises
  \<^verbatim>\<open>AssertionError\<close> and leaves the object unchanged.
\<close>

theorem extend_map_pads:
  assumes "map_of (maps_d s) h = Some sl"
    and "shape0 (sl_updated sl) = shape0 (sl_map sl)"
    and "shape0 (sl_memids sl) = shape0 (sl_map sl)"
    and "0 \<le> shape0 (sl_map sl)"
  shows "(1 \<le> extension \<longrightarrow>
          extend_map h extension s =
            (if shape0 (sl_map sl) + 2 * extension > MAX_MAP_SIZE then (Inr (- 1), s)
             else (Inr (shape0 (sl_map sl) + 2 * extension),
                   s\<lparr>maps_d := AList.update h
                        \<lparr>sl_updated = padded (- 1) extension (sl_updated sl),
                         sl_map = padded 0 extension (sl_map sl),
                         sl_memids = padded 0 extension (sl_memids sl)\<rparr> (maps_d s)\<rparr>)))
       \<and> (extension < 0 \<longrightarrow> extend_map h extension s = (Inl AssertionError, s))"
  using extend_map_existing [OF assms] extend_map_negative by blast

theorem extend_map_pads_witness:
  "extend_map (Some 0) 1 fresh =
     (Inr 1029,
      fresh\<lparr>maps_d := [(Some 0, \<lparr>sl_updated = padded (- 1) 1 (full 1027 (- 1)),
                                   sl_map = padded 0 1 (full 1027 0),
                                   sl_memids = padded 0 1 (full 1027 0)\<rparr>)]\<rparr>)
   \<and> item (padded 0 1 (full 1027 0)) 0 0 = 0
   \<and> shape0 (padded 0 1 (full 1027 0)) = 1029"
  using extend_map_pads [of fresh "Some 0"
      "\<lparr>sl_updated = full 1027 (- 1), sl_map = full 1027 0, sl_memids = full 1027 0\<rparr>" 1]
  by (simp add: full_def padded_def MAX_MAP_SIZE_def)

text \<open>
  C7, as stated, fails on an extension of -1: \<^verbatim>\<open>extend_map\<close> neither returns -1 nor
  pads, it raises \<^verbatim>\<open>AssertionError\<close>.
\<close>

theorem extend_map_negative_extension:
  "extend_map (Some 0) (- 1) fresh = (Inl AssertionError, fresh)"
  by (simp add: extend_map_def)

text \<open>
  C10. When \<^verbatim>\<open>delete_loc_by_memid\<close> is called with \<^verbatim>\<open>is_move\<close> set for a memid whose
  entry of \<^verbatim>\<open>memid2locs\<close> has two keys or more, its first two naming cells of the grid,
  it raises \<^verbatim>\<open>Exception\<close>, and the object it leaves has both cells cleared (owner
  index 0, occupancy 0, time stamp \<open>t\<close>), \<^verbatim>\<open>memid2locs\<close> as before the call (the entry
  is not popped) and every other cell as before.
\<close>

theorem delete_loc_by_memid_move_many:
  assumes "memid \<noteq> []" and "memid \<noteq> ''NULL''"
    and "memid2locs s memid = Some (ijh2idx i1 j1 h1 # ijh2idx i2 j2 h2 # idxs)"
    and "in_grid h1 i1 j1 s" and "i1 < MAX_MAP_SIZE" and "j1 < MAX_MAP_SIZE"
    and "in_grid h2 i2 j2 s" and "i2 < MAX_MAP_SIZE" and "j2 < MAX_MAP_SIZE"
  shows "fst (delete_loc_by_memid memid t True s) = Inl Exception
     \<and> (\<forall>m. get_cell m h1 i1 j1 (snd (delete_loc_by_memid memid t True s))
            = Inr (case m of Updated \<Rightarrow> t | Map \<Rightarrow> 0 | Memids \<Rightarrow> 0))
     \<and> (\<forall>m. get_cell m h2 i2 j2 (snd (delete_loc_by_memid memid t True s))
            = Inr (case m of Updated \<Rightarrow> t | Map \<Rightarrow> 0 | Memids \<Rightarrow> 0))
     \<and> memid2locs (snd (delete_loc_by_memid memid t True s)) = memid2locs s
     \<and> (\<forall>m h i j. 0 \<le> i \<and> 0 \<le> j \<and> (h, i, j) \<noteq> (h1, i1, j1) \<and> (h, i, j) \<noteq> (h2, i2, j2) \<longrightarrow>
            get_cell m h i j (snd (delete_loc_by_memid memid t True s)) = get_cell m h i j s)"
proof -
  have r: "delete_loc_by_memid memid t True s = (Inl Exception, cleared h2 i2 j2 t (cleared h1 i1 j1 t s))"
    using assms by (intro delete_loc_by_memid_two) (simp_all add: BIG_I_def BIG_J_def)
  have n: "0 \<le> i1" "0 \<le> j1" "0 \<le> i2" "0 \<le> j2"
    using assms(4,7) by (simp_all add: in_grid_nonneg)
  show ?thesis
    unfolding r using assms(4,7) n by (simp add: get_cell_cleared)
qed


theorem delete_loc_by_memid_move_many_witness:
  "fst (delete_loc_by_memid ''rock1'' 2 True (snd (update_map 1 [insert_rock1, insert_rock1_east] fresh)))
     = Inl Exception
   \<and> get_cell Memids 0 513 513
        (snd (delete_loc_by_memid ''rock1'' 2 True (snd (update_map 1 [insert_rock1, insert_rock1_east] fresh))))
     = Inr 0
   \<and> get_cell Memids 0 514 513
        (snd (delete_loc_by_memid ''rock1'' 2 True (snd (update_map 1 [insert_rock1, insert_rock1_east] fresh))))
     = Inr 0
   \<and> memid2locs
        (snd (delete_loc_by_memid ''rock1'' 2 True (snd (update_map 1 [insert_rock1, insert_rock1_east] fresh))))
        ''rock1''
     = Some [ijh2idx 513 513 0, ijh2idx 514 513 0]"
proof -
  let ?s = "set_loc_state 514 513 0 1 ''rock1'' True (set_loc_state 513 513 0 1 ''rock1'' True fresh)"
  have "fst (delete_loc_by_memid ''rock1'' 2 True ?s) = Inl Exception
     \<and> (\<forall>m. get_cell m 0 513 513 (snd (delete_loc_by_memid ''rock1'' 2 True ?s))
            = Inr (case m of Updated \<Rightarrow> 2 | Map \<Rightarrow> 0 | Memids \<Rightarrow> 0))
     \<and> (\<forall>m. get_cell m 0 514 513 (snd (delete_loc_by_memid ''rock1'' 2 True ?s))
            = Inr (case m of Updated \<Rightarrow> 2 | Map \<Rightarrow> 0 | Memids \<Rightarrow> 0))
     \<and> memid2locs (snd (delete_loc_by_memid ''rock1'' 2 True ?s)) = memid2locs ?s
     \<and> (\<forall>m h i j. 0 \<le> i \<and> 0 \<le> j \<and> (h, i, j) \<noteq> (0, 513, 513) \<and> (h, i, j) \<noteq> (0, 514, 513) \<longrightarrow>
            get_cell m h i j (snd (delete_loc_by_memid ''rock1'' 2 True ?s)) = get_cell m h i j ?s)"
    by (rule delete_loc_by_memid_move_many [where idxs = "[]"])
      (simp_all add: add_key_def ijh2idx_values in_grid_fresh MAX_MAP_SIZE_def)
  then have "fst (delete_loc_by_memid ''rock1'' 2 True ?s) = Inl Exception
     \<and> get_cell Memids 0 513 513 (snd (delete_loc_by_memid ''rock1'' 2 True ?s)) = Inr 0
     \<and> get_cell Memids 0 514 513 (snd (delete_loc_by_memid ''rock1'' 2 True ?s)) = Inr 0
     \<and> memid2locs (snd (delete_loc_by_memid ''rock1'' 2 True ?s)) ''rock1'' = memid2locs ?s ''rock1''"
    by (metis layer.simps(9))
  then show ?thesis
    unfolding update_map_two_rocks snd_conv by (simp add: add_key_def ijh2idx_values)
qed

text \<open>
  C5, on the code. The claim: a move fails whenever the memid does not own exactly one
  cell, also when it owns none. On the fresh object \<^verbatim>\<open>"rock1"\<close> owns no cell; the
  move of \<^verbatim>\<open>"rock1"\<close> to the origin returns normally and places it there.
\<close>

theorem move_without_location_succeeds:
  "memid2locs fresh ''rock1'' = None
   \<and> fst (update_map 1 [move_rock1_origin] fresh) = Inr ()
   \<and> current_memid 513 513 0 (snd (update_map 1 [move_rock1_origin] fresh)) = Inr ''rock1''
   \<and> memid2locs (snd (update_map 1 [move_rock1_origin] fresh)) ''rock1'' = Some [ijh2idx 513 513 0]"
  by (simp add: apply_move_rock1_origin current_memid_rock1 add_key_def)

text \<open>
  C2, on the code. The claim: for a position outside the grid \<^verbatim>\<open>update_map\<close> makes
  one grow call sized to cover it, and applies the record unless the position is still
  outside. The position \<open>(600, 0, 0)\<close> maps to the cell \<open>(1113, 513)\<close>, 87 cells beyond
  the side 1027. The call returns normally, and the object it leaves is the fresh one
  with a new slice under the key 87: slice 0 has its side and content as before, and
  \<^verbatim>\<open>"rock1"\<close> is neither registered nor placed. A growth of slice 0 by 87 is within the
  maximum: it gives the side 1201.
\<close>

theorem far_change_grows_another_slice:
  "real2map 600 0 0 fresh = Inr (1113, 513)
   \<and> overshoot 1113 513 fresh = 87
   \<and> update_map 1 [insert_far] fresh = (Inr (), far_slice)
   \<and> fst (extend_map (Some 0) 87 fresh) = Inr 1201"
proof -
  have "fst (extend_map (Some 0) 87 fresh) = Inr 1201"
    using extend_map_existing [of fresh "Some 0"
      "\<lparr>sl_updated = full 1027 (- 1), sl_map = full 1027 0, sl_memids = full 1027 0\<rparr>" 87]
    by (simp add: full_def MAX_MAP_SIZE_def)
  then show ?thesis
    by (simp add: real2map_fresh_far overshoot_def apply_insert_far)
qed


text \<open>
  C3, on the code. The claim: with \<^verbatim>\<open>last\<close> set, \<^verbatim>\<open>can_examine\<close> returns false for a
  point whose closest examined point is less than 1 away from \<^verbatim>\<open>last\<close>. After
  \<^verbatim>\<open>update\<close> at the origin, \<^verbatim>\<open>last\<close> is the origin, and the point
  \<open>(1/4, 0, 1/4)\<close> is 1/2 away from it; \<^verbatim>\<open>can_examine\<close> on that point raises
  \<^verbatim>\<open>TypeError\<close> and returns nothing.
\<close>

theorem can_examine_raises_after_update:
  "fst (update visit_origin fresh) = Inr ()
   \<and> last_examined (snd (update visit_origin fresh)) = Some (0, 0, 0)
   \<and> examined (snd (update visit_origin fresh)) = [((0, 0, 0), 1)]
   \<and> no_y_l1 (0, 0, 0) (t_xyz near_origin) (0, 0, 0) = 1 / 2
   \<and> can_examine near_origin (snd (update visit_origin fresh))
       = (Inl TypeError, snd (update visit_origin fresh))"
  by (simp add: update_visit_origin can_examine_last_set no_y_l1_def near_origin_def)

text \<open>
  C4, on the code. The claim: no sequence of calls of \<^verbatim>\<open>get_closest\<close>, \<^verbatim>\<open>update\<close>,
  \<^verbatim>\<open>can_examine\<close> and \<^verbatim>\<open>clear_examined\<close> raises. On the fresh object the first
  \<^verbatim>\<open>get_closest\<close> returns, and the second one raises \<^verbatim>\<open>TypeError\<close>.
\<close>

theorem second_get_closest_raises:
  "do_call (Get_closest (0, 0, 0)) fresh = (None, fresh\<lparr>examined := [((0, 0, 0), 0)]\<rparr>)
   \<and> do_call (Get_closest (1, 0, 1)) (run [Get_closest (0, 0, 0)] fresh)
       = (Some TypeError, fresh\<lparr>examined := [((0, 0, 0), 0)]\<rparr>)"
  by (simp add: outcome_def get_closest_empty get_closest_nonempty)

text \<open>
  C6, as amended. Let a memid other than \<^verbatim>\<open>""\<close> and \<^verbatim>\<open>"NULL"\<close> own exactly one cell
  \<open>(i0, j0)\<close> of slice 0, with \<^verbatim>\<open>memid2locs[memid]\<close> holding the key of that cell and
  no other, in an object whose registry is consistent. A move record for that memid
  to a target \<open>(i, j)\<close> in bounds returns normally; afterwards \<^verbatim>\<open>memid2locs[memid]\<close>
  holds the key of the target and no other, the target is owned by the memid, has the
  time stamp \<open>t\<close> and the occupancy of the record's \<^verbatim>\<open>is_obstacle\<close> (1 when the
  record has none), the old cell, when it is not the target, is cleared (owner
  \<^verbatim>\<open>"NULL"\<close>, occupancy 0, time stamp \<open>t\<close>), and the memid owns no cell but the target.
\<close>

theorem move_single_cell:
  assumes "c_pos c = Some (x, y, z)" and "c_memid c = Some memid" and "c_is_move c = Some True"
    and "get_default (c_is_delete c) False = False"
    and "memid \<noteq> []" and "memid \<noteq> ''NULL''"
    and "reg_inv s" and "memid2index s ''NULL'' = Some 0"
    and "memid2locs s memid = Some [ijh2idx i0 j0 0]" and "in_grid 0 i0 j0 s"
    and "i0 < MAX_MAP_SIZE" and "j0 < MAX_MAP_SIZE" and "current_memid i0 j0 0 s = Inr memid"
    and "\<And>a b. in_grid 0 a b s \<Longrightarrow> current_memid a b 0 s = Inr memid \<Longrightarrow> a = i0 \<and> b = j0"
    and "real2map x z 0 s = Inr (i, j)" and "overshoot i j s \<le> 0" and "in_grid 0 i j s"
  shows "fst (update_map t [c] s) = Inr ()
     \<and> memid2locs (snd (update_map t [c] s)) memid = Some [ijh2idx i j 0]
     \<and> current_memid i j 0 (snd (update_map t [c] s)) = Inr memid
     \<and> get_cell Map 0 i j (snd (update_map t [c] s))
          = Inr (if get_default (c_is_obstacle c) True then 1 else 0)
     \<and> get_cell Updated 0 i j (snd (update_map t [c] s)) = Inr t
     \<and> ((i0, j0) \<noteq> (i, j) \<longrightarrow>
            current_memid i0 j0 0 (snd (update_map t [c] s)) = Inr ''NULL''
          \<and> get_cell Map 0 i0 j0 (snd (update_map t [c] s)) = Inr 0
          \<and> get_cell Updated 0 i0 j0 (snd (update_map t [c] s)) = Inr t)
     \<and> (\<forall>a b. in_grid 0 a b (snd (update_map t [c] s))
            \<and> current_memid a b 0 (snd (update_map t [c] s)) = Inr memid \<longrightarrow> a = i \<and> b = j)"
  using assms by (rule move_one_cell)

theorem move_single_cell_witness:
  "fst (update_map 2 [move_rock1_away] (snd (update_map 1 [insert_rock1] fresh))) = Inr ()
   \<and> memid2locs (snd (update_map 2 [move_rock1_away] (snd (update_map 1 [insert_rock1] fresh)))) ''rock1''
       = Some [ijh2idx 518 518 0]
   \<and> current_memid 518 518 0 (snd (update_map 2 [move_rock1_away] (snd (update_map 1 [insert_rock1] fresh))))
       = Inr ''rock1''
   \<and> get_cell Map 0 518 518 (snd (update_map 2 [move_rock1_away] (snd (update_map 1 [insert_rock1] fresh))))
       = Inr 1
   \<and> current_memid 513 513 0 (snd (update_map 2 [move_rock1_away] (snd (update_map 1 [insert_rock1] fresh))))
       = Inr ''NULL''
   \<and> get_cell Map 0 513 513 (snd (update_map 2 [move_rock1_away] (snd (update_map 1 [insert_rock1] fresh))))
       = Inr 0"
proof -
  define s where "s = set_loc_state 513 513 0 1 ''rock1'' True fresh"
  have s: "snd (update_map 1 [insert_rock1] fresh) = s"
    by (simp only: rock1_placed snd_conv s_def)
  have ob: "get_default (c_is_obstacle move_rock1_away) True = True"
    by (simp add: move_rock1_away_def get_default_def)
  have "fst (update_map 2 [move_rock1_away] s) = Inr ()
     \<and> memid2locs (snd (update_map 2 [move_rock1_away] s)) ''rock1'' = Some [ijh2idx 518 518 0]
     \<and> current_memid 518 518 0 (snd (update_map 2 [move_rock1_away] s)) = Inr ''rock1''
     \<and> get_cell Map 0 518 518 (snd (update_map 2 [move_rock1_away] s))
          = Inr (if get_default (c_is_obstacle move_rock1_away) True then 1 else 0)
     \<and> get_cell Updated 0 518 518 (snd (update_map 2 [move_rock1_away] s)) = Inr 2
     \<and> ((513 :: int, 513 :: int) \<noteq> (518, 518) \<longrightarrow>
            current_memid 513 513 0 (snd (update_map 2 [move_rock1_away] s)) = Inr ''NULL''
          \<and> get_cell Map 0 513 513 (snd (update_map 2 [move_rock1_away] s)) = Inr 0
          \<and> get_cell Updated 0 513 513 (snd (update_map 2 [move_rock1_away] s)) = Inr 2)
     \<and> (\<forall>a b. in_grid 0 a b (snd (update_map 2 [move_rock1_away] s))
            \<and> current_memid a b 0 (snd (update_map 2 [move_rock1_away] s)) = Inr ''rock1'' \<longrightarrow>
            a = 518 \<and> b = 518)"
  proof (rule move_single_cell [where x = 5 and y = 0 and z = 5])
    show "c_pos move_rock1_away = Some (5, 0, 5)" by (simp add: move_rock1_away_def)
    show "c_memid move_rock1_away = Some ''rock1''" by (simp add: move_rock1_away_def)
    show "c_is_move move_rock1_away = Some True" by (simp add: move_rock1_away_def)
    show "get_default (c_is_delete move_rock1_away) False = False"
      by (simp add: move_rock1_away_def get_default_def)
    show "''rock1'' \<noteq> []" by simp
    show "''rock1'' \<noteq> ''NULL''" by simp
    show "reg_inv s" unfolding s_def by (rule rock1_placed_facts(1))
    show "memid2index s ''NULL'' = Some 0" unfolding s_def by (rule rock1_placed_facts(2))
    show "memid2locs s ''rock1'' = Some [ijh2idx 513 513 0]" unfolding s_def by (rule rock1_placed_facts(3))
    show "in_grid 0 513 513 s" by (simp add: s_def in_grid_fresh)
    show "513 < MAX_MAP_SIZE" by (simp add: MAX_MAP_SIZE_def)
    show "513 < MAX_MAP_SIZE" by (simp add: MAX_MAP_SIZE_def)
    show "current_memid 513 513 0 s = Inr ''rock1''" unfolding s_def by (rule current_memid_rock1)
    show "a = 513 \<and> b = 513" if "in_grid 0 a b s" "current_memid a b 0 s = Inr ''rock1''" for a b
      using that unfolding s_def by (rule rock1_placed_only)
    show "real2map 5 5 0 s = Inr (518, 518)" unfolding s_def by (rule rock1_placed_facts(4))
    show "overshoot 518 518 s \<le> 0" unfolding s_def by (rule rock1_placed_facts(5))
    show "in_grid 0 518 518 s" by (simp add: s_def in_grid_fresh)
  qed
  then show ?thesis unfolding s ob by simp
qed

text \<open>
  C6, as stated, fails on a move record with \<^verbatim>\<open>"is_obstacle": False\<close>: the move
  returns normally and the target is owned by \<^verbatim>\<open>"rock1"\<close>, with occupancy 0.
\<close>

theorem move_free_cell_not_occupied:
  "fst (update_map 2 [move_rock1_away_free] (snd (update_map 1 [insert_rock1] fresh))) = Inr ()
   \<and> current_memid 518 518 0
        (snd (update_map 2 [move_rock1_away_free] (snd (update_map 1 [insert_rock1] fresh))))
       = Inr ''rock1''
   \<and> get_cell Map 0 518 518
        (snd (update_map 2 [move_rock1_away_free] (snd (update_map 1 [insert_rock1] fresh))))
       = Inr 0"
proof -
  let ?s = "set_loc_state 513 513 0 1 ''rock1'' True fresh"
  define S where "S = (cleared 0 513 513 2 ?s)\<lparr>memid2locs := (memid2locs ?s)(''rock1'' := None)\<rparr>"
  have s: "snd (update_map 1 [insert_rock1] fresh) = ?s"
    by (simp only: rock1_placed snd_conv)
  have ob: "get_default (c_is_obstacle move_rock1_away_free) True = False"
    by (simp add: move_rock1_away_free_def get_default_def)
  have st: "update_map 2 [move_rock1_away_free] ?s = (Inr (), set_loc_state 518 518 0 2 ''rock1'' False S)"
    unfolding S_def using move_rock1_away_free_state by (simp only: ob)
  have reg: "memid2index S ''rock1'' = Some 2" "index2memid S = [''NULL'', ''self'', ''rock1'']"
    by (simp_all add: S_def maybe_add_memid_rock1_fresh)
  have g: "in_grid 0 518 518 S" by (simp add: S_def in_grid_fresh)
  have k: "maybe_add_memid ''rock1'' S = (2, S)" using reg(1) by (rule maybe_add_memid_known)
  show ?thesis
    unfolding s st fst_conv snd_conv
    by (simp add: current_memid_def get_cell_set_loc_state g k reg list_getitem_def py_index_def)
qed

text \<open>
  C9. In every state \<open>s\<close> that a sequence of calls reaches from a fresh PlaceField:
  \<^verbatim>\<open>maybe_add_memid\<close> called again with the same token returns the same index and
  changes nothing; a token the registry does not know receives the index
  \<open>len(index2memid)\<close> and is appended; a known token receives its index and the object
  is left as it is; the indices issued are exactly \<open>0, \<dots>, len(index2memid) - 1\<close>, no
  two tokens sharing one; and after any later sequence of calls every token still has
  its index, the list holds the token at that index, and no other token has it.
\<close>

theorem maybe_add_memid_registry:
  assumes "PlaceField_init self_memid ppu = Inr s0"
    and "s = run calls s0"
  shows "maybe_add_memid tok (snd (maybe_add_memid tok s))
           = (fst (maybe_add_memid tok s), snd (maybe_add_memid tok s))
     \<and> (memid2index s tok = None \<longrightarrow>
            fst (maybe_add_memid tok s) = int (length (index2memid s))
          \<and> index2memid (snd (maybe_add_memid tok s)) = index2memid s @ [tok])
     \<and> (\<forall>k. memid2index s tok = Some k \<longrightarrow> maybe_add_memid tok s = (k, s))
     \<and> ran (memid2index s) = {k. 0 \<le> k \<and> k < int (length (index2memid s))}
     \<and> (\<forall>m m' k. memid2index s m = Some k \<and> memid2index s m' = Some k \<longrightarrow> m = m')
     \<and> (\<forall>m k. memid2index s m = Some k \<longrightarrow>
            memid2index (run later s) m = Some k
          \<and> list_getitem (index2memid (run later s)) k = Inr m
          \<and> (\<forall>m'. memid2index (run later s) m' = Some k \<longrightarrow> m' = m))"
proof -
  have "reg_ok s0 s0" using reg_inv_init [OF assms(1)] by (simp add: reg_ok_def reg_extends_refl)
  then have "reg_ok s0 s" unfolding assms(2) by (rule reg_ok_run)
  then have "reg_inv s" by (simp add: reg_ok_def)
  then show ?thesis by (rule registry_facts)
qed

theorem maybe_add_memid_registry_witness:
  "maybe_add_memid ''rock1'' (snd (maybe_add_memid ''rock1'' fresh))
       = (2, snd (maybe_add_memid ''rock1'' fresh))
   \<and> fst (maybe_add_memid ''rock1'' fresh) = 2
   \<and> index2memid (snd (maybe_add_memid ''rock1'' fresh)) = [''NULL'', ''self'', ''rock1'']
   \<and> maybe_add_memid ''self'' fresh = (1, fresh)
   \<and> ran (memid2index fresh) = {k. 0 \<le> k \<and> k < 2}
   \<and> memid2index (run [Update_map 1 [insert_rock1, delete_at_origin], Get_closest (0, 0, 0)] fresh) ''self''
       = Some 1
   \<and> list_getitem (index2memid (run [Update_map 1 [insert_rock1, delete_at_origin], Get_closest (0, 0, 0)] fresh)) 1
       = Inr ''self''"
proof -
  define later where "later = [Update_map 1 [insert_rock1, delete_at_origin], Get_closest (0, 0, 0)]"
  have a: "fresh = run [] fresh" by simp
  note t1 = maybe_add_memid_registry [OF PlaceField_init_fresh a, of "''rock1''" later]
  note t2 = maybe_add_memid_registry [OF PlaceField_init_fresh a, of "''self''" later]
  have n: "memid2index fresh ''rock1'' = None" by simp
  have k: "memid2index fresh ''self'' = Some 1" by simp
  have l: "int (length (index2memid fresh)) = 2" by simp
  have x: "index2memid fresh @ [''rock1''] = [''NULL'', ''self'', ''rock1'']" by simp
  from t1 n have c2: "fst (maybe_add_memid ''rock1'' fresh) = int (length (index2memid fresh))"
    and c3: "index2memid (snd (maybe_add_memid ''rock1'' fresh)) = index2memid fresh @ [''rock1'']"
    by blast+
  from t1 have c1: "maybe_add_memid ''rock1'' (snd (maybe_add_memid ''rock1'' fresh))
       = (fst (maybe_add_memid ''rock1'' fresh), snd (maybe_add_memid ''rock1'' fresh))"
    and c5: "ran (memid2index fresh) = {k. 0 \<le> k \<and> k < int (length (index2memid fresh))}"
    by blast+
  from t1 k have c6: "memid2index (run later fresh) ''self'' = Some 1"
    and c7: "list_getitem (index2memid (run later fresh)) 1 = Inr ''self''"
    by blast+
  from t2 k have c4: "maybe_add_memid ''self'' fresh = (1, fresh)" by blast
  show ?thesis
    unfolding later_def [symmetric]
    using c1 [unfolded c2 l] c2 [unfolded l] c3 [unfolded x] c4 c5 [unfolded l] c6 c7 by blast
qed

end
